theory Spec2Isabelle
  imports Complex_Main "HOL-Library.Sublist" "HOL-Library.AList"
begin

section \<open>Python text operations used by the reply pipeline\<close>

text \<open>
  A Python \<open>str\<close> is modelled as a \<open>string\<close> whose characters are the code points
  U+0000 to U+00FF, one \<open>char\<close> per code point. The operations below are the built-in
  methods the pipeline in \<open>app/logic.py\<close> calls, restricted to that range.
\<close>

definition is_space :: "char \<Rightarrow> bool" where
  \<comment> \<open>\<open>str.isspace\<close> on one character: TAB..CR, FS..US, SPACE, NEL, NBSP.\<close>
  "is_space c =
     (let n = (of_char c :: nat)
      in (9 \<le> n \<and> n \<le> 13) \<or> (28 \<le> n \<and> n \<le> 32) \<or> n = 133 \<or> n = 160)"

definition strip :: "string \<Rightarrow> string" where
  \<comment> \<open>\<open>s.strip()\<close>\<close>
  "strip s = rev (dropWhile is_space (rev (dropWhile is_space s)))"

definition startswith :: "string \<Rightarrow> string \<Rightarrow> bool" where
  \<comment> \<open>\<open>s.startswith(p)\<close>\<close>
  "startswith s p = (take (length p) s = p)"

fun contains :: "string \<Rightarrow> string \<Rightarrow> bool" where
  \<comment> \<open>\<open>sub in s\<close> on two strings; the first argument is \<open>sub\<close>\<close>
  "contains sub [] = (sub = [])"
| "contains sub (c # cs) = (startswith (c # cs) sub \<or> contains sub cs)"

section \<open>Compose stage: cleaning the generated reply\<close>

text \<open>
  \<open>generate_platform_reply\<close>, lines 213 to 226: the model text is stripped, then one
  loop runs over \<open>prefixes_to_remove\<close>; an entry the current text starts with is cut off
  and the rest is stripped again. The loop has no \<open>break\<close>.
\<close>

definition prefixes_to_remove :: "string list" where
  "prefixes_to_remove =
     [''Reply:'', ''Here's my reply:'', ''Here is my reply:'',
      ''Here's a reply:'', ''Here is a reply:'']"

definition cut_prefix :: "string \<Rightarrow> string \<Rightarrow> string" where
  \<comment> \<open>\<open>reply_text[len(prefix):].strip()\<close>\<close>
  "cut_prefix reply_text pfx = strip (drop (length pfx) reply_text)"

fun remove_prefixes :: "string list \<Rightarrow> string \<Rightarrow> string" where
  "remove_prefixes [] reply_text = reply_text"
| "remove_prefixes (pfx # rest) reply_text =
     remove_prefixes rest
       (if startswith reply_text pfx then cut_prefix reply_text pfx else reply_text)"

text \<open>The same loop, returning the list of the entries it cut off, in the order of cutting.\<close>

fun removed_prefixes :: "string list \<Rightarrow> string \<Rightarrow> string list" where
  "removed_prefixes [] reply_text = []"
| "removed_prefixes (pfx # rest) reply_text =
     (if startswith reply_text pfx
      then pfx # removed_prefixes rest (cut_prefix reply_text pfx)
      else removed_prefixes rest reply_text)"

definition clean_reply :: "string \<Rightarrow> string" where
  "clean_reply raw = remove_prefixes prefixes_to_remove (strip raw)"

definition removed_labels :: "string \<Rightarrow> string list" where
  "removed_labels raw = removed_prefixes prefixes_to_remove (strip raw)"

text \<open>
  Two notions for the result of the loop. A text is label-free when it begins with none
  of the entries of \<open>prefixes_to_remove\<close>. A cut uncovers a label when the text left by
  the cut begins with an entry the loop has already passed, the entry just cut included:
  the loop does not come back to such an entry. \<open>uncovers passed todo t\<close> runs the loop on
  \<open>t\<close> and tells whether one of its cuts does so.
\<close>

definition label_free :: "string \<Rightarrow> bool" where
  "label_free t = list_all (\<lambda>pfx. \<not> startswith t pfx) prefixes_to_remove"

definition at_most_one_label :: "string \<Rightarrow> bool" where
  \<comment> \<open>whichever entry the text begins with, the text left by cutting it is label-free\<close>
  "at_most_one_label t =
     list_all (\<lambda>pfx. startswith t pfx \<longrightarrow> label_free (cut_prefix t pfx)) prefixes_to_remove"

fun uncovers :: "string list \<Rightarrow> string list \<Rightarrow> string \<Rightarrow> bool" where
  "uncovers passed [] reply_text = False"
| "uncovers passed (pfx # rest) reply_text =
     (if startswith reply_text pfx
      then list_ex (startswith (cut_prefix reply_text pfx)) (passed @ [pfx])
           \<or> uncovers (passed @ [pfx]) rest (cut_prefix reply_text pfx)
      else uncovers (passed @ [pfx]) rest reply_text)"

definition cut_uncovers_label :: "string \<Rightarrow> bool" where
  "cut_uncovers_label raw = uncovers [] prefixes_to_remove (strip raw)"

section \<open>Python values, exceptions and the operations the pipeline applies to them\<close>

text \<open>
  Every exception of the model is an instance of Python's \<open>Exception\<close>. \<open>LibraryError\<close>
  stands for any other \<open>Exception\<close> subclass raised inside a library call (network,
  authentication, driver errors); its argument is the class name.
\<close>

datatype exn =
    JSONDecodeError | KeyError | TypeError | AttributeError | IndexError | ValueError
  | LibraryError string

text \<open>
  The values that occur in the pipeline: what \<open>json.loads\<close> returns, the timestamps and
  the elapsed seconds of the result record. A \<open>dict\<close> with \<open>str\<close> keys is an association
  list in insertion order. A \<open>float\<close> is represented by the rational it denotes (rounding
  is not modelled), a \<open>datetime\<close> by its microseconds since the epoch, an \<open>ObjectId\<close> of
  the database driver by its hexadecimal form.
\<close>

datatype pyval =
    PNone | PBool bool | PInt int | PFloat rat | PStr string
  | PList "pyval list" | PDict "(string \<times> pyval) list" | PDatetime int | PObjectId string

definition bind_r :: "exn + 'a \<Rightarrow> ('a \<Rightarrow> exn + 'b) \<Rightarrow> exn + 'b" where
  \<comment> \<open>sequencing of two steps, the first of which may raise\<close>
  "bind_r m f = (case m of Inl e \<Rightarrow> Inl e | Inr x \<Rightarrow> f x)"

definition py_index :: "'a list \<Rightarrow> nat \<Rightarrow> exn + 'a" where
  \<comment> \<open>\<open>xs[i]\<close> for \<open>i \<ge> 0\<close>\<close>
  "py_index xs i = (if i < length xs then Inr (xs ! i) else Inl IndexError)"

fun split_once :: "string \<Rightarrow> string \<Rightarrow> (string \<times> string) option" where
  \<comment> \<open>the text before and after the first occurrence of a non-empty separator\<close>
  "split_once sep [] = None"
| "split_once sep (c # cs) =
     (if startswith (c # cs) sep then Some ([], drop (length sep) (c # cs))
      else (case split_once sep cs of
              None \<Rightarrow> None
            | Some (before, after) \<Rightarrow> Some (c # before, after)))"

lemma split_once_shorter:
  "sep \<noteq> [] \<Longrightarrow> split_once sep s = Some (a, b) \<Longrightarrow> length b < length s"
proof (induction s arbitrary: a)
  case Nil
  then show ?case by simp
next
  case (Cons c cs)
  show ?case
  proof (cases "startswith (c # cs) sep")
    case True
    with Cons.prems have "b = drop (length sep) (c # cs)" by simp
    with Cons.prems(1) show ?thesis by (cases sep) auto
  next
    case False
    with Cons.prems obtain a' where "split_once sep cs = Some (a', b)"
      by (auto split: option.splits)
    with Cons.IH [OF Cons.prems(1)] show ?thesis by fastforce
  qed
qed

function split_all :: "string \<Rightarrow> string \<Rightarrow> string list" where
  "split_all sep s =
     (if sep = [] then [s]
      else (case split_once sep s of
              None \<Rightarrow> [s]
            | Some (before, after) \<Rightarrow> before # split_all sep after))"
  by pat_completeness auto
termination
  by (relation "measure (\<lambda>(sep, s). length s)") (auto simp: split_once_shorter)

declare split_all.simps [simp del]

definition py_split :: "string \<Rightarrow> string \<Rightarrow> exn + string list" where
  \<comment> \<open>\<open>s.split(sep)\<close>; the first argument is \<open>sep\<close>. An empty separator raises \<open>ValueError\<close>.\<close>
  "py_split sep s = (if sep = [] then Inl ValueError else Inr (split_all sep s))"

definition lower_char :: "char \<Rightarrow> char" where
  \<comment> \<open>\<open>str.lower\<close> on one character: A..Z and the capital letters U+00C0..U+00DE
      (without the multiplication sign U+00D7) move up by 32.\<close>
  "lower_char c =
     (let n = (of_char c :: nat)
      in if (65 \<le> n \<and> n \<le> 90) \<or> (192 \<le> n \<and> n \<le> 222 \<and> n \<noteq> 215)
         then char_of (n + 32) else c)"

definition lower :: "string \<Rightarrow> string" where
  \<comment> \<open>\<open>s.lower()\<close>\<close>
  "lower s = map lower_char s"

fun join_strs :: "string \<Rightarrow> string list \<Rightarrow> string" where
  "join_strs sep [] = []"
| "join_strs sep [x] = x"
| "join_strs sep (x # y # ys) = x @ sep @ join_strs sep (y # ys)"

fun str_items :: "pyval list \<Rightarrow> exn + string list" where
  \<comment> \<open>\<open>str.join\<close> accepts only \<open>str\<close> items\<close>
  "str_items [] = Inr []"
| "str_items (PStr s # vs) = bind_r (str_items vs) (\<lambda>ss. Inr (s # ss))"
| "str_items (v # vs) = Inl TypeError"

definition py_join :: "string \<Rightarrow> pyval \<Rightarrow> exn + string" where
  \<comment> \<open>\<open>sep.join(v)\<close>: a list gives its items, a \<open>str\<close> its characters, a \<open>dict\<close> its keys;
      any other value is not iterable.\<close>
  "py_join sep v =
     (case v of
        PList vs \<Rightarrow> bind_r (str_items vs) (\<lambda>ss. Inr (join_strs sep ss))
      | PStr s \<Rightarrow> Inr (join_strs sep (map (\<lambda>c. [c]) s))
      | PDict d \<Rightarrow> Inr (join_strs sep (map fst d))
      | _ \<Rightarrow> Inl TypeError)"

definition py_in :: "string \<Rightarrow> pyval \<Rightarrow> exn + bool" where
  \<comment> \<open>\<open>key in obj\<close> for a \<open>str\<close> key: a key of a \<open>dict\<close>, an item of a list, a substring
      of a \<open>str\<close>; any other value raises \<open>TypeError\<close>.\<close>
  "py_in key obj =
     (case obj of
        PDict d \<Rightarrow> Inr (map_of d key \<noteq> None)
      | PList vs \<Rightarrow> Inr (PStr key \<in> set vs)
      | PStr s \<Rightarrow> Inr (contains key s)
      | _ \<Rightarrow> Inl TypeError)"

definition py_getitem :: "pyval \<Rightarrow> string \<Rightarrow> exn + pyval" where
  \<comment> \<open>\<open>obj[key]\<close> for a \<open>str\<close> key\<close>
  "py_getitem obj key =
     (case obj of
        PDict d \<Rightarrow> (case map_of d key of None \<Rightarrow> Inl KeyError | Some v \<Rightarrow> Inr v)
      | _ \<Rightarrow> Inl TypeError)"

definition py_setitem :: "pyval \<Rightarrow> string \<Rightarrow> pyval \<Rightarrow> exn + pyval" where
  \<comment> \<open>\<open>obj[key] = v\<close> for a \<open>str\<close> key; the updated object is returned\<close>
  "py_setitem obj key v =
     (case obj of
        PDict d \<Rightarrow> Inr (PDict (AList.update key v d))
      | _ \<Rightarrow> Inl TypeError)"

definition py_get :: "pyval \<Rightarrow> string \<Rightarrow> pyval \<Rightarrow> exn + pyval" where
  \<comment> \<open>\<open>obj.get(key, default)\<close>; only a \<open>dict\<close> has the method\<close>
  "py_get obj key dflt =
     (case obj of
        PDict d \<Rightarrow> Inr (case map_of d key of None \<Rightarrow> dflt | Some v \<Rightarrow> v)
      | _ \<Rightarrow> Inl AttributeError)"

definition isinstance_list :: "pyval \<Rightarrow> bool" where
  "isinstance_list v = (case v of PList vs \<Rightarrow> True | _ \<Rightarrow> False)"

section \<open>The world outside the pipeline\<close>

text \<open>
  The language model, \<open>json.loads\<close>, the clock and the MongoDB driver are not code of the
  repository. They are fields of an environment, and every theorem holds for all
  environments. \<open>llm_invoke\<close> is \<open>self.llm.invoke(messages).content\<close>; it sees the calls
  made before, so its answers may differ from call to call. \<open>str_upper\<close> is \<open>str.upper\<close>
  (which leaves the code points below 256) and \<open>py_str\<close> is the text an f-string shows
  for a value that is not a \<open>str\<close>. \<open>utc_now n\<close> is the \<open>n\<close>-th reading of the clock.
  \<open>insert_one\<close> is the driver's call on a document: it gives the outcome of the call,
  \<open>str(result.inserted_id)\<close> or the exception raised, and the value the driver stores
  under the key \<open>_id\<close> of the document it was given, if it stores one (the driver adds
  this key to a document that has none; any other entry it leaves as it is).
\<close>

datatype message = SystemMessage string | HumanMessage string

datatype log_entry =
    Printed string
  | PrintedExn string exn
  | PrintedVal string pyval

record env =
  llm_invoke :: "message list list \<Rightarrow> message list \<Rightarrow> exn + string"
  json_loads :: "string \<Rightarrow> exn + pyval"
  str_upper :: "string \<Rightarrow> string"
  py_str :: "pyval \<Rightarrow> string"
  utc_now :: "nat \<Rightarrow> int"
  motor_client :: "exn + unit"
  get_database :: "exn + unit"
  ping :: "exn + unit"
  db_bool :: "exn + bool"
  create_index :: "string list \<Rightarrow> exn + unit"
  insert_one :: "(string \<times> pyval) list \<Rightarrow> (exn + string) \<times> pyval option"

text \<open>
  The state the code changes: the gateway calls made so far, the number of clock
  readings, the lines written by \<open>print\<close>, and the class attributes \<open>Database.client\<close> and
  \<open>Database.db\<close> (\<open>True\<close> when the attribute is not \<open>None\<close>).
\<close>

record world =
  sent :: "message list list"
  clock_reads :: nat
  printed :: "log_entry list"
  client :: bool
  db :: bool

type_synonym 'a io = "world \<Rightarrow> (exn + 'a) \<times> world"

definition pure :: "'a \<Rightarrow> 'a io" where
  "pure x = (\<lambda>w. (Inr x, w))"

definition throw :: "exn \<Rightarrow> 'a io" where
  "throw e = (\<lambda>w. (Inl e, w))"

definition lift_r :: "exn + 'a \<Rightarrow> 'a io" where
  "lift_r r = (\<lambda>w. (r, w))"

definition bind_io :: "'a io \<Rightarrow> ('a \<Rightarrow> 'b io) \<Rightarrow> 'b io" where
  "bind_io m f = (\<lambda>w. case m w of (Inl e, w') \<Rightarrow> (Inl e, w') | (Inr x, w') \<Rightarrow> f x w')"

definition try_except :: "'a io \<Rightarrow> (exn \<Rightarrow> bool) \<Rightarrow> (exn \<Rightarrow> 'a io) \<Rightarrow> 'a io" where
  \<comment> \<open>\<open>try: body except <classes> as e: handler\<close>\<close>
  "try_except body caught handler =
     (\<lambda>w. case body w of
             (Inl e, w') \<Rightarrow> if caught e then handler e w' else (Inl e, w')
           | (Inr x, w') \<Rightarrow> (Inr x, w'))"

definition print :: "log_entry \<Rightarrow> unit io" where
  "print l = (\<lambda>w. (Inr (), w\<lparr>printed := printed w @ [l]\<rparr>))"

definition now :: "env \<Rightarrow> int io" where
  \<comment> \<open>\<open>datetime.now(timezone.utc)\<close>\<close>
  "now E = (\<lambda>w. (Inr (utc_now E (clock_reads w)), w\<lparr>clock_reads := Suc (clock_reads w)\<rparr>))"

definition any_exception :: "exn \<Rightarrow> bool" where
  \<comment> \<open>\<open>except Exception\<close>\<close>
  "any_exception e = True"

definition decode_or_key_error :: "exn \<Rightarrow> bool" where
  \<comment> \<open>\<open>except (json.JSONDecodeError, KeyError)\<close>\<close>
  "decode_or_key_error e = (e = JSONDecodeError \<or> e = KeyError)"

section \<open>The text model gateway (\<open>app/model.py\<close>)\<close>

definition fallback_response :: string where
  "fallback_response = ''I couldn't generate a proper response at this time.''"

definition invoke :: "env \<Rightarrow> message list \<Rightarrow> string io" where
  \<comment> \<open>\<open>self.llm.invoke(messages)\<close> followed by \<open>response.content\<close>; the call is recorded\<close>
  "invoke E messages =
     (\<lambda>w. (llm_invoke E (sent w) messages, w\<lparr>sent := sent w @ [messages]\<rparr>))"

definition build_messages :: "string \<Rightarrow> string option \<Rightarrow> message list" where
  \<comment> \<open>lines 35 to 42: the system message is added only for a non-empty system prompt\<close>
  "build_messages prompt_message system_prompt =
     (case system_prompt of
        None \<Rightarrow> []
      | Some s \<Rightarrow> if s \<noteq> [] then [SystemMessage s] else [])
     @ [HumanMessage prompt_message]"

definition generate_response :: "env \<Rightarrow> string \<Rightarrow> string option \<Rightarrow> string io" where
  "generate_response E prompt_message system_prompt =
     try_except (invoke E (build_messages prompt_message system_prompt))
       any_exception
       (\<lambda>e. bind_io (print (PrintedExn ''Error generating response: '' e))
              (\<lambda>_. pure fallback_response))"

section \<open>Extraction of the structured payload (\<open>app/logic.py\<close>)\<close>

text \<open>
  Lines 44 to 47 of \<open>analyze_post\<close> and lines 130 to 133 of \<open>determine_strategy\<close> are the
  same statements; they are one function here. Both are inside the \<open>try\<close> of their stage.
\<close>

definition between_fences :: "string \<Rightarrow> string \<Rightarrow> exn + string" where
  \<comment> \<open>\<open>text.split(fence)[1].split("```")[0].strip()\<close>\<close>
  "between_fences fence text =
     bind_r (py_split fence text) (\<lambda>parts.
     bind_r (py_index parts 1) (\<lambda>rest.
     bind_r (py_split ''```'' rest) (\<lambda>pieces.
     bind_r (py_index pieces 0) (\<lambda>inner.
     Inr (strip inner)))))"

definition extract_json_text :: "string \<Rightarrow> exn + string" where
  "extract_json_text text =
     (if contains ''```json'' text then between_fences ''```json'' text
      else if contains ''```'' text then between_fences ''```'' text
      else Inr text)"

fun ensure_keys :: "string list \<Rightarrow> pyval \<Rightarrow> exn + pyval" where
  \<comment> \<open>lines 53 to 55: \<open>for key in required_keys: if key not in data: data[key] = "unknown"\<close>\<close>
  "ensure_keys [] analysis_data = Inr analysis_data"
| "ensure_keys (key # keys) analysis_data =
     bind_r (py_in key analysis_data) (\<lambda>present.
       if \<not> present
       then bind_r (py_setitem analysis_data key (PStr ''unknown'')) (ensure_keys keys)
       else ensure_keys keys analysis_data)"

definition required_keys :: "string list" where
  "required_keys = [''intent'', ''sentiment'', ''topics'', ''response_type'']"

definition fallback_analysis :: pyval where
  "fallback_analysis =
     PDict [(''intent'', PStr ''unknown''),
            (''sentiment'', PStr ''neutral''),
            (''topics'', PList [PStr ''general'']),
            (''response_type'', PStr ''engagement'')]"

definition analysis_of_text :: "env \<Rightarrow> string \<Rightarrow> exn + pyval" where
  \<comment> \<open>the body of the \<open>try\<close> of \<open>analyze_post\<close>, lines 44 to 61\<close>
  "analysis_of_text E analysis_text =
     bind_r (extract_json_text analysis_text) (\<lambda>text.
     bind_r (json_loads E text) (\<lambda>loaded.
     bind_r (ensure_keys required_keys loaded) (\<lambda>analysis_data.
     bind_r (py_getitem analysis_data ''topics'') (\<lambda>topics.
       if \<not> isinstance_list topics
       then bind_r (py_getitem analysis_data ''topics'') (\<lambda>topic.
              py_setitem analysis_data ''topics'' (PList [topic]))
       else Inr analysis_data))))"

definition parse_analysis :: "env \<Rightarrow> string \<Rightarrow> pyval io" where
  \<comment> \<open>lines 43 to 71: the \<open>try\<close> with its \<open>except (json.JSONDecodeError, KeyError)\<close>\<close>
  "parse_analysis E analysis_text =
     try_except (lift_r (analysis_of_text E analysis_text))
       decode_or_key_error
       (\<lambda>e. bind_io (print (PrintedExn ''Error parsing analysis: '' e))
              (\<lambda>_. pure fallback_analysis))"

definition default_summary :: pyval where
  "default_summary = PStr ''Respond naturally to the post.''"

definition default_considerations :: pyval where
  "default_considerations = PList [PStr ''Keep it authentic'', PStr ''Address the main points'']"

definition fallback_strategy :: pyval where
  "fallback_strategy =
     PDict [(''strategy_summary'', default_summary),
            (''considerations'', default_considerations)]"

definition ensure_key :: "string \<Rightarrow> pyval \<Rightarrow> pyval \<Rightarrow> exn + pyval" where
  \<comment> \<open>\<open>if key not in data: data[key] = dflt\<close>\<close>
  "ensure_key key dflt strategy_data =
     bind_r (py_in key strategy_data) (\<lambda>present.
       if \<not> present then py_setitem strategy_data key dflt else Inr strategy_data)"

definition strategy_of_text :: "env \<Rightarrow> string \<Rightarrow> exn + pyval" where
  \<comment> \<open>the body of the \<open>try\<close> of \<open>determine_strategy\<close>, lines 130 to 143\<close>
  "strategy_of_text E strategy_text =
     bind_r (extract_json_text strategy_text) (\<lambda>text.
     bind_r (json_loads E text) (\<lambda>loaded.
     bind_r (ensure_key ''strategy_summary'' default_summary loaded) (\<lambda>strategy_data.
     ensure_key ''considerations'' default_considerations strategy_data)))"

definition parse_strategy :: "env \<Rightarrow> string \<Rightarrow> pyval io" where
  "parse_strategy E strategy_text =
     try_except (lift_r (strategy_of_text E strategy_text))
       decode_or_key_error
       (\<lambda>e. bind_io (print (PrintedExn ''Error parsing strategy: '' e))
              (\<lambda>_. pure fallback_strategy))"

section \<open>The three stages\<close>

definition fmt :: "env \<Rightarrow> pyval \<Rightarrow> string" where
  \<comment> \<open>a replacement field of an f-string: a \<open>str\<close> is shown as it is\<close>
  "fmt E v = (case v of PStr s \<Rightarrow> s | _ \<Rightarrow> py_str E v)"

definition analyzer_prompt :: "env \<Rightarrow> string \<Rightarrow> string \<Rightarrow> string" where
  \<open>analyzer_prompt E platform post_text =
     ''\<newline>    Analyze this social media post from '' @ str_upper E platform
     @ '':\<newline>    \<newline>    "'' @ post_text
     @ ''"\<newline>    \<newline>    Determine:\<newline>    1. Core intent (question, statement, complaint, request, etc.)\<newline>    2. Emotional tone (happy, frustrated, neutral, excited, etc.)\<newline>    3. Key topics mentioned (list the main 1-3 topics)\<newline>    4. Expected response type (information, sympathy, engagement, etc.)\<newline>    \<newline>    Format your response as JSON with these keys: "intent", "sentiment", "topics" (as a list), "response_type".\<newline>    Only include the JSON in your response, nothing else.\<newline>    ''\<close>

definition analyze_post :: "env \<Rightarrow> string \<Rightarrow> string \<Rightarrow> pyval io" where
  "analyze_post E platform post_text =
     bind_io (generate_response E (analyzer_prompt E platform post_text)
                (Some ''You are an expert in social media communication analysis.''))
       (\<lambda>analysis_text. parse_analysis E analysis_text)"

definition strategy_prompt :: "env \<Rightarrow> string \<Rightarrow> string \<Rightarrow> pyval \<Rightarrow> exn + string" where
  \<comment> \<open>lines 88 to 110; the replacement fields are evaluated from left to right\<close>
  \<open>strategy_prompt E platform post_text analysis =
     bind_r (py_getitem analysis ''intent'') (\<lambda>intent.
     bind_r (py_getitem analysis ''sentiment'') (\<lambda>sentiment.
     bind_r (py_getitem analysis ''topics'') (\<lambda>topics.
     bind_r (py_join '', '' topics) (\<lambda>topics_text.
     bind_r (py_getitem analysis ''response_type'') (\<lambda>response_type.
     Inr (''\<newline>    Given this analysis of a '' @ str_upper E platform
       @ '' post:\<newline>    \<newline>    Post: "'' @ post_text
       @ ''"\<newline>    \<newline>    Analysis:\<newline>    - Intent: '' @ fmt E intent
       @ ''\<newline>    - Sentiment: '' @ fmt E sentiment
       @ ''\<newline>    - Topics: '' @ topics_text
       @ ''\<newline>    - Expected response type: '' @ fmt E response_type
       @ ''\<newline>    \<newline>    Develop a strategy for a natural, human-like response that:\<newline>    1. Addresses the core intent\<newline>    2. Matches or appropriately responds to the emotional tone\<newline>    3. Feels authentic to '' @ str_upper E platform
       @ '''s communication style\<newline>    4. Avoids typical AI patterns (excessive formality, generic statements)\<newline>    \<newline>    Provide your strategy in JSON format with these keys:\<newline>    - "strategy_summary" (1-2 sentences)\<newline>    - "considerations" (list of 2-3 points)\<newline>    \<newline>    Only include the JSON in your response, nothing else.\<newline>    ''))))))\<close>

definition platform_prompts :: "(string \<times> string) list" where
  "platform_prompts =
     [(''twitter'', ''You are an expert in crafting authentic tweets and replies.''),
      (''linkedin'', ''You are an expert in professional LinkedIn communication.''),
      (''instagram'', ''You are an expert in Instagram communication style.''),
      (''facebook'', ''You are an expert in Facebook engagement.''),
      (''reddit'', ''You are an expert in Reddit-style communication.'')]"

definition dict_get :: "(string \<times> 'a) list \<Rightarrow> string \<Rightarrow> 'a \<Rightarrow> 'a" where
  \<comment> \<open>\<open>table.get(key, default)\<close> on a literal \<open>dict\<close>\<close>
  "dict_get table key dflt = (case map_of table key of None \<Rightarrow> dflt | Some v \<Rightarrow> v)"

definition strategy_system_prompt :: "string \<Rightarrow> string" where
  \<comment> \<open>lines 121 to 124\<close>
  "strategy_system_prompt platform =
     dict_get platform_prompts (lower platform)
       ''You are an expert in social media communication.''"

definition determine_strategy :: "env \<Rightarrow> string \<Rightarrow> string \<Rightarrow> pyval \<Rightarrow> pyval io" where
  "determine_strategy E platform post_text analysis =
     bind_io (lift_r (strategy_prompt E platform post_text analysis)) (\<lambda>prompt.
     bind_io (generate_response E prompt (Some (strategy_system_prompt platform)))
       (\<lambda>strategy_text. parse_strategy E strategy_text))"

definition platform_characteristics :: "(string \<times> string) list" where
  "platform_characteristics =
     [(''twitter'', ''brief (under 280 chars), conversational, often using hashtags, casual language''),
      (''linkedin'', ''professional but personable, thoughtful, industry-focused''),
      (''instagram'', ''visual-focused references, emoji-rich, positive, brief''),
      (''facebook'', ''personal, conversational, community-oriented, varied length''),
      (''reddit'', ''topic-focused, can reference subreddit culture, varying formality'')]"

definition platform_style :: "string \<Rightarrow> string" where
  \<comment> \<open>lines 181 to 184\<close>
  "platform_style platform =
     dict_get platform_characteristics (lower platform)
       ''conversational, authentic, human-like''"

definition generator_prompt ::
  "env \<Rightarrow> string \<Rightarrow> string \<Rightarrow> pyval \<Rightarrow> pyval \<Rightarrow> exn + string" where
  \<comment> \<open>lines 186 to 207\<close>
  \<open>generator_prompt E platform post_text analysis strategy =
     bind_r (py_get strategy ''considerations'' (PList [PStr ''Be authentic''])) (\<lambda>cs.
     bind_r (py_join '', '' cs) (\<lambda>considerations.
     bind_r (py_get strategy ''strategy_summary'' (PStr ''Respond naturally'')) (\<lambda>summary.
     bind_r (py_get analysis ''intent'' PNone) (\<lambda>intent.
     bind_r (py_get analysis ''sentiment'' PNone) (\<lambda>sentiment.
     bind_r (py_get analysis ''topics'' (PList [PStr ''general''])) (\<lambda>topics.
     bind_r (py_join '', '' topics) (\<lambda>topics_text.
     bind_r (py_get analysis ''response_type'' (PStr ''general'')) (\<lambda>response_type.
     Inr (''\<newline>    Write a reply to this '' @ str_upper E platform
       @ '' post:\<newline>    \<newline>    "'' @ post_text
       @ ''"\<newline>    \<newline>    Strategy: '' @ fmt E summary
       @ ''\<newline>    \<newline>    Important considerations: '' @ considerations
       @ ''\<newline>    \<newline>    Your reply should:\<newline>    - Match '' @ str_upper E platform
       @ '' style: '' @ platform_style platform
       @ ''\<newline>    - Sound like a real '' @ str_upper E platform
       @ '' user (not an AI)\<newline>    - Respond to the post's intent ('' @ fmt E intent
       @ '') and tone ('' @ fmt E sentiment
       @ '')\<newline>    - Be about the topics: '' @ topics_text
       @ ''\<newline>    - Provide a '' @ fmt E response_type
       @ '' type of response\<newline>    - Include natural human writing elements (conversational phrases, appropriate informality)\<newline>    - Avoid sounding too perfect, formal, or generic\<newline>    \<newline>    Write ONLY the reply text itself. Do not include explanations or analysis.\<newline>    '')))))))))\<close>

definition reply_system_prompt :: "string \<Rightarrow> string" where
  \<comment> \<open>line 209\<close>
  "reply_system_prompt platform =
     ''You are a regular '' @ platform
     @ '' user having a natural conversation. Write replies that sound like a real person, not an AI.''"

definition generate_platform_reply ::
  "env \<Rightarrow> string \<Rightarrow> string \<Rightarrow> pyval \<Rightarrow> pyval \<Rightarrow> string io" where
  "generate_platform_reply E platform post_text analysis strategy =
     bind_io (lift_r (generator_prompt E platform post_text analysis strategy)) (\<lambda>prompt.
     bind_io (generate_response E prompt (Some (reply_system_prompt platform)))
       (\<lambda>reply_text. pure (clean_reply reply_text)))"

section \<open>Persistence (\<open>app/db/database.py\<close>)\<close>

definition set_client :: "unit io" where
  "set_client = (\<lambda>w. (Inr (), w\<lparr>client := True\<rparr>))"

definition set_db :: "unit io" where
  "set_db = (\<lambda>w. (Inr (), w\<lparr>db := True\<rparr>))"

definition create_indexes :: "env \<Rightarrow> unit io" where
  \<comment> \<open>lines 49 to 56; \<open>if cls.db:\<close> asks the driver for the truth value of the handle\<close>
  "create_indexes E =
     (\<lambda>w. if \<not> db w then (Inr (), w)
          else bind_io (lift_r (db_bool E)) (\<lambda>truthy.
                 if truthy
                 then bind_io (lift_r (create_index E [''platform''])) (\<lambda>_.
                      bind_io (lift_r (create_index E [''created_at''])) (\<lambda>_.
                      lift_r (create_index E [''post_text'', ''reply_text''])))
                 else pure ()) w)"

definition connect :: "env \<Rightarrow> unit io" where
  \<comment> \<open>lines 18 to 35\<close>
  "connect E =
     (\<lambda>w. if \<not> client w
          then try_except
                 (bind_io (lift_r (motor_client E)) (\<lambda>_.
                  bind_io set_client (\<lambda>_.
                  bind_io (lift_r (get_database E)) (\<lambda>_.
                  bind_io set_db (\<lambda>_.
                  bind_io (lift_r (ping E)) (\<lambda>_.
                  bind_io (print (Printed ''Successfully connected to MongoDB'')) (\<lambda>_.
                  create_indexes E)))))))
                 any_exception
                 (\<lambda>e. print (PrintedExn ''Failed to connect to MongoDB: '' e)) w
          else (Inr (), w))"

definition insert_document ::
  "env \<Rightarrow> (string \<times> pyval) list \<Rightarrow> (exn + string) \<times> (string \<times> pyval) list" where
  \<comment> \<open>\<open>insert_one(reply_data)\<close> of line 81 followed by \<open>str(result.inserted_id)\<close> of line 83:
      the outcome, and the dictionary as the call leaves it\<close>
  "insert_document E document =
     (case insert_one E document of
        (outcome, None) \<Rightarrow> (outcome, document)
      | (outcome, Some oid) \<Rightarrow> (outcome, AList.update ''_id'' oid document))"

definition store_reply ::
  "env \<Rightarrow> (string \<times> pyval) list \<Rightarrow> (string option \<times> (string \<times> pyval) list) io" where
  \<comment> \<open>lines 58 to 86. The result is the value returned together with the dictionary
      \<open>reply_data\<close> as the call leaves it: the caller holds the same object. In line 78
      \<open>datetime\<close> is the class imported in line 5, which has no attribute \<open>timezone\<close>:
      evaluating the argument raises \<open>AttributeError\<close>, outside any \<open>try\<close>.\<close>
  "store_reply E reply_data =
     bind_io (\<lambda>w. if \<not> db w then connect E w else (Inr (), w)) (\<lambda>_.
     (\<lambda>w. if \<not> db w
          then bind_io (print (Printed ''Database connection unavailable, skipping storage''))
                 (\<lambda>_. pure (None, reply_data)) w
          else bind_io
                 (if map_of reply_data ''created_at'' = None then throw AttributeError
                  else pure ())
                 (\<lambda>_. case insert_document E reply_data of
                        (outcome, reply_data) \<Rightarrow>
                          try_except
                            (bind_io (lift_r outcome) (\<lambda>inserted_id.
                             bind_io (print (Printed (''Stored reply with ID: '' @ inserted_id)))
                               (\<lambda>_. pure (Some inserted_id, reply_data))))
                            any_exception
                            (\<lambda>e. bind_io (print (PrintedExn ''Error storing reply: '' e))
                                   (\<lambda>_. pure (None, reply_data)))) w))"

section \<open>The orchestrator\<close>

definition total_seconds :: "int \<Rightarrow> int \<Rightarrow> rat" where
  \<comment> \<open>\<open>(later - earlier).total_seconds()\<close> of two timestamps in microseconds\<close>
  "total_seconds later earlier = of_int (later - earlier) / 1000000"

definition generate_reply ::
  "env \<Rightarrow> string \<Rightarrow> string \<Rightarrow> string option \<Rightarrow> bool \<Rightarrow> (string \<times> pyval) list io" where
  \<comment> \<open>lines 229 to 285; \<open>result\<close> is returned as \<open>store_reply\<close> leaves it\<close>
  "generate_reply E platform post_text context include_analysis =
     bind_io (now E) (\<lambda>start_time.
     bind_io (analyze_post E platform post_text) (\<lambda>analysis.
     bind_io (print (PrintedVal ''Post analysis: '' analysis)) (\<lambda>_.
     bind_io (print (Printed ''\<newline>'')) (\<lambda>_.
     bind_io (determine_strategy E platform post_text analysis) (\<lambda>strategy.
     bind_io (print (PrintedVal ''Response strategy: '' strategy)) (\<lambda>_.
     bind_io (print (Printed ''\<newline>'')) (\<lambda>_.
     bind_io (generate_platform_reply E platform post_text analysis strategy) (\<lambda>reply_text.
     bind_io (print (Printed (''Generated reply: '' @ reply_text))) (\<lambda>_.
     bind_io (print (Printed ''\<newline>'')) (\<lambda>_.
     bind_io (now E) (\<lambda>end_time.
     bind_io (now E) (\<lambda>created_at.
     bind_io (lift_r (py_get strategy ''strategy_summary'' PNone)) (\<lambda>summary.
       let result =
             [(''reply_text'', PStr reply_text),
              (''platform'', PStr platform),
              (''post_text'', PStr post_text),
              (''created_at'', PDatetime created_at),
              (''metadata'',
                 PDict [(''generation_time'', PFloat (total_seconds end_time start_time)),
                        (''strategy'', summary),
                        (''model'', PStr ''Google Gemini'')])];
           result = (if include_analysis then AList.update ''analysis'' analysis result
                     else result)
       in bind_io (store_reply E result) (\<lambda>(stored_id, result). pure result))))))))))))))"

section \<open>A concrete environment for running the model\<close>

text \<open>
  The theorems below hold for every environment. To run the model on concrete inputs one
  environment is fixed here. Its \<open>json.loads\<close> is a recursive-descent reader for the part
  of JSON without fractions, exponents, \<open>NaN\<close>, \<open>Infinity\<close> and \<open>\u\<close> escapes: white space,
  \<open>null\<close>, \<open>true\<close>, \<open>false\<close>, integers, strings, arrays and objects (a repeated key keeps
  its first position and its last value, as in a Python \<open>dict\<close>). Texts outside that part
  are rejected here although Python reads them; none occurs below. The reader carries
  fuel, one unit per nested value, and is started with more fuel than the text has
  characters.
\<close>

definition json_ws :: "char \<Rightarrow> bool" where
  "json_ws c = (c = CHR '' '' \<or> c = CHR 0x09 \<or> c = CHR 0x0A \<or> c = CHR 0x0D)"

definition skip_ws :: "string \<Rightarrow> string" where
  "skip_ws s = dropWhile json_ws s"

definition unescape :: "char \<Rightarrow> char option" where
  \<open>unescape c =
     (if c = CHR 0x22 then Some (CHR 0x22)
      else if c = CHR 0x5C then Some (CHR 0x5C)
      else if c = CHR ''/'' then Some (CHR ''/'')
      else if c = CHR ''b'' then Some (CHR 0x08)
      else if c = CHR ''f'' then Some (CHR 0x0C)
      else if c = CHR ''n'' then Some (CHR 0x0A)
      else if c = CHR ''r'' then Some (CHR 0x0D)
      else if c = CHR ''t'' then Some (CHR 0x09)
      else None)\<close>

fun read_string :: "string \<Rightarrow> (string \<times> string) option" where
  \<comment> \<open>the characters of a string literal after its opening quote, and the text after it\<close>
  "read_string [] = None"
| "read_string [c] = (if c = CHR 0x22 then Some ([], []) else None)"
| "read_string (c # d # cs) =
     (if c = CHR 0x22 then Some ([], d # cs)
      else if c = CHR 0x5C
      then (case unescape d of
              None \<Rightarrow> None
            | Some u \<Rightarrow> (case read_string cs of
                           None \<Rightarrow> None
                         | Some (s, rest) \<Rightarrow> Some (u # s, rest)))
      else if (of_char c :: nat) < 32 then None
      else (case read_string (d # cs) of
              None \<Rightarrow> None
            | Some (s, rest) \<Rightarrow> Some (c # s, rest)))"

definition is_digit :: "char \<Rightarrow> bool" where
  "is_digit c = (48 \<le> (of_char c :: nat) \<and> (of_char c :: nat) \<le> 57)"

definition digits_value :: "string \<Rightarrow> int" where
  "digits_value ds = foldl (\<lambda>n c. 10 * n + (int (of_char c) - 48)) 0 ds"

definition read_digits :: "string \<Rightarrow> (int \<times> string) option" where
  \<comment> \<open>an unsigned integer without a leading zero, not followed by a fraction or exponent\<close>
  "read_digits s =
     (let ds = takeWhile is_digit s; rest = dropWhile is_digit s
      in if ds = [] \<or> (length ds > 1 \<and> hd ds = CHR ''0'') then None
         else if rest \<noteq> [] \<and> (hd rest = CHR ''.'' \<or> hd rest = CHR ''e'' \<or> hd rest = CHR ''E'')
         then None
         else Some (digits_value ds, rest))"

definition read_scalar :: "string \<Rightarrow> (pyval \<times> string) option" where
  "read_scalar s =
     (if startswith s ''null'' then Some (PNone, drop 4 s)
      else if startswith s ''true'' then Some (PBool True, drop 4 s)
      else if startswith s ''false'' then Some (PBool False, drop 5 s)
      else if startswith s ''-''
      then (case read_digits (drop 1 s) of
              None \<Rightarrow> None
            | Some (n, rest) \<Rightarrow> Some (PInt (- n), rest))
      else (case read_digits s of
              None \<Rightarrow> None
            | Some (n, rest) \<Rightarrow> Some (PInt n, rest)))"

fun read_value :: "nat \<Rightarrow> string \<Rightarrow> (pyval \<times> string) option"
  and read_items :: "nat \<Rightarrow> pyval list \<Rightarrow> string \<Rightarrow> (pyval \<times> string) option"
  and read_members :: "nat \<Rightarrow> (string \<times> pyval) list \<Rightarrow> string \<Rightarrow> (pyval \<times> string) option"
where
  "read_value 0 s = None"
| "read_value (Suc n) s =
     (case skip_ws s of
        [] \<Rightarrow> None
      | c # r \<Rightarrow>
          if c = CHR ''{''
          then (if startswith (skip_ws r) ''}'' then Some (PDict [], drop 1 (skip_ws r))
                else read_members n [] r)
          else if c = CHR ''[''
          then (if startswith (skip_ws r) '']'' then Some (PList [], drop 1 (skip_ws r))
                else read_items n [] r)
          else if c = CHR 0x22
          then (case read_string r of
                  None \<Rightarrow> None
                | Some (str, rest) \<Rightarrow> Some (PStr str, rest))
          else read_scalar (c # r))"
| "read_items 0 acc s = None"
| "read_items (Suc n) acc s =
     (case read_value n s of
        None \<Rightarrow> None
      | Some (v, rest) \<Rightarrow>
          (case skip_ws rest of
             [] \<Rightarrow> None
           | c # r \<Rightarrow>
               if c = CHR '','' then read_items n (acc @ [v]) r
               else if c = CHR '']'' then Some (PList (acc @ [v]), r)
               else None))"
| "read_members 0 acc s = None"
| "read_members (Suc n) acc s =
     (case skip_ws s of
        [] \<Rightarrow> None
      | q # r \<Rightarrow>
          if q \<noteq> CHR 0x22 then None
          else (case read_string r of
                  None \<Rightarrow> None
                | Some (key, rest) \<Rightarrow>
                    (case skip_ws rest of
                       [] \<Rightarrow> None
                     | c # r1 \<Rightarrow>
                         if c \<noteq> CHR '':'' then None
                         else (case read_value n r1 of
                                 None \<Rightarrow> None
                               | Some (v, rest1) \<Rightarrow>
                                   (case skip_ws rest1 of
                                      [] \<Rightarrow> None
                                    | d # r2 \<Rightarrow>
                                        if d = CHR '',''
                                        then read_members n (AList.update key v acc) r2
                                        else if d = CHR ''}''
                                        then Some (PDict (AList.update key v acc), r2)
                                        else None)))))"

definition loads_basic :: "string \<Rightarrow> exn + pyval" where
  "loads_basic s =
     (case read_value (Suc (length s)) s of
        None \<Rightarrow> Inl JSONDecodeError
      | Some (v, rest) \<Rightarrow> if skip_ws rest = [] then Inr v else Inl JSONDecodeError)"

definition upper_ascii :: "string \<Rightarrow> string" where
  \<comment> \<open>\<open>str.upper\<close> on ASCII text\<close>
  "upper_ascii s =
     map (\<lambda>c. let n = (of_char c :: nat)
              in if 97 \<le> n \<and> n \<le> 122 then char_of (n - 32) else c) s"

definition str_basic :: "pyval \<Rightarrow> string" where
  \<comment> \<open>\<open>str(v)\<close> for \<open>None\<close>, \<open>True\<close> and \<open>False\<close>; no other value is formatted below\<close>
  "str_basic v =
     (case v of
        PNone \<Rightarrow> ''None''
      | PBool b \<Rightarrow> (if b then ''True'' else ''False'')
      | _ \<Rightarrow> [])"

definition sample_env :: "(exn + string) list \<Rightarrow> env" where
  \<comment> \<open>The language model answers its \<open>n\<close>-th call with the \<open>n\<close>-th entry of the script and
      fails once the script is used up. The clock advances one second per reading. The
      database accepts the connection; the insert gives a document without \<open>_id\<close> a new
      identifier and rejects a document that brings an \<open>_id\<close>; the truth value of the
      database handle raises, as the driver's does.\<close>
  "sample_env script =
     \<lparr> llm_invoke = (\<lambda>history messages.
         if length history < length script then script ! length history
         else Inl (LibraryError ''ConnectionError'')),
       json_loads = loads_basic,
       str_upper = upper_ascii,
       py_str = str_basic,
       utc_now = (\<lambda>n. 1000000 * int n),
       motor_client = Inr (),
       get_database = Inr (),
       ping = Inr (),
       db_bool = Inl (LibraryError ''NotImplementedError''),
       create_index = (\<lambda>keys. Inr ()),
       insert_one = (\<lambda>document.
         if map_of document ''_id'' = None
         then (Inr ''65f0c0ffee0123456789abcd'', Some (PObjectId ''65f0c0ffee0123456789abcd''))
         else (Inl (LibraryError ''DuplicateKeyError''), None)) \<rparr>"

definition world0 :: world where
  \<comment> \<open>a fresh process: nothing sent, nothing printed, no database connection\<close>
  "world0 = \<lparr> sent = [], clock_reads = 0, printed = [], client = False, db = False \<rparr>"

definition returned :: "exn + 'a \<Rightarrow> 'a option" where
  \<comment> \<open>the value a run returned; \<open>None\<close> when it raised\<close>
  "returned r = (case r of Inl e \<Rightarrow> None | Inr x \<Rightarrow> Some x)"

definition field_of :: "exn + (string \<times> pyval) list \<Rightarrow> string \<Rightarrow> pyval option" where
  \<comment> \<open>a field of the record a run returned; \<open>None\<close> when the run raised or the field is absent\<close>
  "field_of r key = (case r of Inl e \<Rightarrow> None | Inr d \<Rightarrow> map_of d key)"

definition item_of :: "pyval option \<Rightarrow> string \<Rightarrow> pyval option" where
  \<comment> \<open>an entry of a field that is a \<open>dict\<close>\<close>
  "item_of v key = (case v of Some (PDict d) \<Rightarrow> map_of d key | _ \<Rightarrow> None)"

section \<open>Notions used to state the claims\<close>

definition text_before :: "string \<Rightarrow> string \<Rightarrow> string" where
  \<comment> \<open>the text before the first occurrence of \<open>sep\<close>; the whole text when there is none\<close>
  "text_before sep s = (case split_once sep s of None \<Rightarrow> s | Some (before, after) \<Rightarrow> before)"

definition text_after :: "string \<Rightarrow> string \<Rightarrow> string" where
  \<comment> \<open>the text after the first occurrence of \<open>sep\<close>; empty when there is none\<close>
  "text_after sep s = (case split_once sep s of None \<Rightarrow> [] | Some (before, after) \<Rightarrow> after)"

text \<open>
  The fence selection in the words of the specification: a fenced block is an opening
  fence together with the next closing fence, and its content is the text between the
  two. The content of the first block tagged \<open>json\<close> is taken if there is one, else the
  content of the first block of any kind, else the raw text.
\<close>

definition fenced_block :: "string \<Rightarrow> string \<Rightarrow> string option" where
  "fenced_block opener text =
     (case split_once opener text of
        None \<Rightarrow> None
      | Some (before, rest) \<Rightarrow>
          (case split_once ''```'' rest of
             None \<Rightarrow> None
           | Some (inner, after) \<Rightarrow> Some inner))"

definition spec_selection :: "string \<Rightarrow> string" where
  "spec_selection text =
     (case fenced_block ''```json'' text of
        Some inner \<Rightarrow> inner
      | None \<Rightarrow> (case fenced_block ''```'' text of
                   Some inner \<Rightarrow> inner
                 | None \<Rightarrow> text))"

text \<open>
  Two platform strings are equal up to letter case when they have the same length and, at
  every position, the two characters are the same or one is the lower-case form of the
  other.
\<close>

definition same_letter :: "char \<Rightarrow> char \<Rightarrow> bool" where
  "same_letter a b = (a = b \<or> lower_char a = b \<or> lower_char b = a)"

definition equal_up_to_case :: "string \<Rightarrow> string \<Rightarrow> bool" where
  "equal_up_to_case p q = list_all2 same_letter p q"

section \<open>Facts about the text operations\<close>

lemma startswith_prefix: "startswith s p = prefix p s"
  by (auto simp: startswith_def prefix_def take_is_prefix)
    (metis append_eq_conv_conj)

lemma strip_idem: "strip (strip s) = strip s"
proof -
  have a: "dropWhile is_space (rev (dropWhile is_space (rev xs))) = rev (dropWhile is_space (rev xs))"
    if "xs = [] \<or> \<not> is_space (hd xs)" for xs
  proof (cases "dropWhile is_space (rev xs) = []")
    case True
    show ?thesis unfolding True by simp
  next
    case False
    from False have ne: "xs \<noteq> []" by auto
    with that have h: "\<not> is_space (hd xs)" by simp
    have "hd (rev (dropWhile is_space (rev xs))) = last (dropWhile is_space (rev xs))"
      using False by (simp add: hd_rev)
    also have "\<dots> = last (rev xs)"
      using False by (metis last_appendR takeWhile_dropWhile_id)
    also have "\<dots> = hd xs" using ne by (simp add: last_rev)
    finally have "\<not> is_space (hd (rev (dropWhile is_space (rev xs))))" using h by simp
    then show ?thesis
      using False by (metis dropWhile.simps(2) list.collapse rev_is_Nil_conv)
  qed
  have b: "dropWhile is_space s = [] \<or> \<not> is_space (hd (dropWhile is_space s))"
    by (metis hd_dropWhile)
  show ?thesis
    unfolding strip_def using a [OF b] by (simp add: dropWhile_idem)
qed

lemma removed_subseq: "subseq (removed_prefixes ps t) ps"
  by (induction ps arbitrary: t) auto

lemma remove_as_fold: "remove_prefixes ps t = foldl cut_prefix t (removed_prefixes ps t)"
  by (induction ps arbitrary: t) auto

lemma remove_none: "\<forall>p\<in>set ps. \<not> startswith t p \<Longrightarrow> remove_prefixes ps t = t"
  by (induction ps) auto

lemma length_strip: "length (strip s) \<le> length s"
proof -
  have "length (dropWhile P xs) \<le> length xs" for P and xs :: string
    by (simp add: length_dropWhile_le)
  then show ?thesis unfolding strip_def
    by (metis length_rev order_trans)
qed

lemma length_cut: "p \<noteq> [] \<Longrightarrow> startswith t p \<Longrightarrow> length (cut_prefix t p) < length t"
proof -
  assume a: "p \<noteq> []" and b: "startswith t p"
  from b have "length (take (length p) t) = length p" by (simp add: startswith_def)
  then have "length p \<le> length t" by simp
  with a have "length (drop (length p) t) < length t" by (cases p) auto
  then show ?thesis unfolding cut_prefix_def using length_strip [of "drop (length p) t"] by simp
qed

lemma length_remove: "length (remove_prefixes ps t) \<le> length t"
proof (induction ps arbitrary: t)
  case Nil show ?case by simp
next
  case (Cons p ps)
  have "length (cut_prefix t p) \<le> length t"
    unfolding cut_prefix_def using length_strip [of "drop (length p) t"] by simp
  then show ?case using Cons [of "cut_prefix t p"] Cons [of t] by auto
qed

lemma remove_some_shorter:
  "p \<in> set ps \<Longrightarrow> startswith t p \<Longrightarrow> [] \<notin> set ps \<Longrightarrow> length (remove_prefixes ps t) < length t"
proof (induction ps arbitrary: t)
  case Nil then show ?case by simp
next
  case (Cons q ps)
  show ?case
  proof (cases "startswith t q")
    case True
    have "length (cut_prefix t q) < length t" using True Cons.prems(3) by (intro length_cut) auto
    moreover have "length (remove_prefixes ps (cut_prefix t q)) \<le> length (cut_prefix t q)"
      by (rule length_remove)
    ultimately show ?thesis using True by simp
  next
    case False
    with Cons.prems have "p \<in> set ps" by auto
    with Cons False show ?thesis by auto
  qed
qed

lemma remove_stripped: "strip t = t \<Longrightarrow> strip (remove_prefixes ps t) = remove_prefixes ps t"
  by (induction ps arbitrary: t) (auto simp: cut_prefix_def strip_idem)

lemma clean_stripped: "strip (clean_reply raw) = clean_reply raw"
  unfolding clean_reply_def by (rule remove_stripped) (rule strip_idem)

lemma no_empty_prefix: "[] \<notin> set prefixes_to_remove"
  by (simp add: prefixes_to_remove_def)


section \<open>Claims about the cleaning of the reply\<close>

text \<open>
  Claim C3, as the code has it. The post-processing strips the model text and then goes
  once through \<open>prefixes_to_remove\<close> in list order, cutting every entry the current text
  starts with (case-sensitive) and stripping after each cut. The entries cut form a
  subsequence of the list: each entry is cut at most once and in list order, so at most
  five are cut, and the result is the stripped text with exactly those entries cut.
\<close>

theorem clean_reply_cuts_subsequence:
  "subseq (removed_labels raw) prefixes_to_remove
   \<and> length (removed_labels raw) \<le> 5
   \<and> clean_reply raw = foldl cut_prefix (strip raw) (removed_labels raw)"
proof -
  have a: "subseq (removed_labels raw) prefixes_to_remove"
    unfolding removed_labels_def by (rule removed_subseq)
  then have "length (removed_labels raw) \<le> length prefixes_to_remove"
    by (rule list_emb_length)
  then have b: "length (removed_labels raw) \<le> 5"
    by (simp add: prefixes_to_remove_def)
  have c: "clean_reply raw = foldl cut_prefix (strip raw) (removed_labels raw)"
    unfolding clean_reply_def removed_labels_def by (rule remove_as_fold)
  from a b c show ?thesis by simp
qed

theorem clean_reply_cuts_subsequence_witness:
  "subseq (removed_labels ''Reply: Here's my reply: hi'') prefixes_to_remove
   \<and> length (removed_labels ''Reply: Here's my reply: hi'') \<le> 5
   \<and> clean_reply ''Reply: Here's my reply: hi''
       = foldl cut_prefix (strip ''Reply: Here's my reply: hi'')
           (removed_labels ''Reply: Here's my reply: hi'')"
  by (rule clean_reply_cuts_subsequence)

text \<open>
  The claim C3 as stated (never two or more prefixes removed) fails: on the text below the
  loop cuts \<open>Reply:\<close> and then \<open>Here's my reply:\<close>.
\<close>

theorem clean_reply_two_prefixes_counterexample:
  "\<not> length (removed_labels ''Reply: Here's my reply: hi'') \<le> 1
   \<and> removed_labels ''Reply: Here's my reply: hi'' = [''Reply:'', ''Here's my reply:'']
   \<and> clean_reply ''Reply: Here's my reply: hi'' = ''hi''"
proof -
  have a: "removed_labels ''Reply: Here's my reply: hi'' = [''Reply:'', ''Here's my reply:'']"
    by code_simp
  have b: "clean_reply ''Reply: Here's my reply: hi'' = ''hi''"
    by code_simp
  from a b show ?thesis by simp
qed

text \<open>Lemmas on cuts that uncover a label.\<close>

lemma startswith_both: "startswith t q \<Longrightarrow> startswith t r \<Longrightarrow> prefix q r \<or> prefix r q"
  by (simp add: startswith_prefix prefix_same_cases)

lemma no_uncover_label_free:
  "\<forall>q\<in>set passed. \<not> startswith t q \<Longrightarrow> \<not> uncovers passed ps t
     \<Longrightarrow> \<forall>q\<in>set (passed @ ps). \<not> startswith (remove_prefixes ps t) q"
proof (induction ps arbitrary: passed t)
  case Nil
  then show ?case by simp
next
  case (Cons p ps)
  show ?case
  proof (cases "startswith t p")
    case True
    with Cons.prems(2) have a: "\<forall>q\<in>set (passed @ [p]). \<not> startswith (cut_prefix t p) q"
      and b: "\<not> uncovers (passed @ [p]) ps (cut_prefix t p)"
      by (auto simp: list_ex_iff)
    from Cons.IH [OF a b] True show ?thesis by simp
  next
    case False
    with Cons.prems have a: "\<forall>q\<in>set (passed @ [p]). \<not> startswith t q"
      and b: "\<not> uncovers (passed @ [p]) ps t" by auto
    from Cons.IH [OF a b] False show ?thesis by simp
  qed
qed

lemma uncover_leaves_label:
  "distinct (passed @ ps) \<Longrightarrow> \<forall>a\<in>set (passed @ ps). \<forall>b\<in>set (passed @ ps). prefix a b \<longrightarrow> a = b
     \<Longrightarrow> uncovers passed ps t
     \<Longrightarrow> \<exists>q\<in>set (passed @ ps). startswith (remove_prefixes ps t) q"
proof (induction ps arbitrary: passed t)
  case Nil
  then show ?case by simp
next
  case (Cons p ps)
  have d: "distinct ((passed @ [p]) @ ps)" using Cons.prems(1) by simp
  have ac: "\<forall>a\<in>set ((passed @ [p]) @ ps). \<forall>b\<in>set ((passed @ [p]) @ ps). prefix a b \<longrightarrow> a = b"
    using Cons.prems(2) by simp
  show ?case
  proof (cases "startswith t p")
    case True
    let ?t = "cut_prefix t p"
    show ?thesis
    proof (cases "\<exists>q\<in>set (passed @ [p]). startswith ?t q")
      case hit: True
      then obtain q where q: "q \<in> set (passed @ [p])" "startswith ?t q" by blast
      have "\<forall>r\<in>set ps. \<not> startswith ?t r"
      proof (rule ballI, rule notI)
        fix r assume r: "r \<in> set ps" "startswith ?t r"
        from startswith_both [OF q(2) r(2)] have "prefix q r \<or> prefix r q" .
        with ac q(1) r(1) have "q = r" by auto
        with d q(1) r(1) show False by auto
      qed
      then have "remove_prefixes ps ?t = ?t" by (rule remove_none)
      with True q show ?thesis by auto
    next
      case False
      with True Cons.prems(3) have "uncovers (passed @ [p]) ps ?t"
        by (auto simp: list_ex_iff)
      from Cons.IH [OF d ac this] True show ?thesis by simp
    qed
  next
    case False
    with Cons.prems(3) have "uncovers (passed @ [p]) ps t" by simp
    from Cons.IH [OF d ac this] False show ?thesis by simp
  qed
qed

lemma prefixes_distinct: "distinct prefixes_to_remove"
  by (simp add: prefixes_to_remove_def)

lemma prefixes_antichain:
  "\<forall>a\<in>set prefixes_to_remove. \<forall>b\<in>set prefixes_to_remove. prefix a b \<longrightarrow> a = b"
  by (simp add: prefixes_to_remove_def)

lemma uncovers_label_free:
  "label_free t \<Longrightarrow> set ps \<subseteq> set prefixes_to_remove \<Longrightarrow> \<not> uncovers passed ps t"
proof (induction ps arbitrary: passed)
  case Nil
  then show ?case by simp
next
  case (Cons p ps)
  from Cons.prems have "\<not> startswith t p" by (auto simp: label_free_def list_all_iff)
  with Cons show ?case by simp
qed

lemma single_label_no_uncover:
  "\<forall>p\<in>set prefixes_to_remove. startswith t p \<longrightarrow> label_free (cut_prefix t p)
     \<Longrightarrow> set (passed @ ps) \<subseteq> set prefixes_to_remove \<Longrightarrow> \<not> uncovers passed ps t"
proof (induction ps arbitrary: passed)
  case Nil
  then show ?case by simp
next
  case (Cons p ps)
  have sub: "set ((passed @ [p]) @ ps) \<subseteq> set prefixes_to_remove" using Cons.prems(2) by simp
  show ?case
  proof (cases "startswith t p")
    case True
    with Cons.prems have lf: "label_free (cut_prefix t p)" by simp
    then have "\<forall>q\<in>set (passed @ [p]). \<not> startswith (cut_prefix t p) q"
      using Cons.prems(2) by (auto simp: label_free_def list_all_iff)
    moreover have "\<not> uncovers (passed @ [p]) ps (cut_prefix t p)"
      using lf Cons.prems(2) by (intro uncovers_label_free) auto
    ultimately show ?thesis using True by (simp add: list_ex_iff)
  next
    case False
    with Cons.IH [OF Cons.prems(1) sub] show ?thesis by simp
  qed
qed

text \<open>
  Claim C4, as the code has it. If the stripped model text begins with no label prefix,
  or begins with one and the text left after cutting it begins with none, then the output
  begins with no label prefix and cleaning it a second time changes nothing. In general
  the output begins with no label prefix exactly when no cut of the loop uncovers an
  entry the loop has already passed, and cleaning the output a second time gives the
  same text exactly when the first output begins with no label prefix.
\<close>

theorem clean_reply_label_free_iff:
  "(at_most_one_label (strip raw)
      \<longrightarrow> label_free (clean_reply raw) \<and> clean_reply (clean_reply raw) = clean_reply raw)
   \<and> label_free (clean_reply raw) = (\<not> cut_uncovers_label raw)
   \<and> (clean_reply (clean_reply raw) = clean_reply raw) = label_free (clean_reply raw)"
proof -
  have exact: "label_free (clean_reply raw) = (\<not> cut_uncovers_label raw)"
  proof
    assume lf: "label_free (clean_reply raw)"
    show "\<not> cut_uncovers_label raw"
    proof
      assume "cut_uncovers_label raw"
      then have "uncovers [] prefixes_to_remove (strip raw)"
        by (simp add: cut_uncovers_label_def)
      with uncover_leaves_label [of "[]" prefixes_to_remove "strip raw"]
        prefixes_distinct prefixes_antichain
      have "\<exists>q\<in>set prefixes_to_remove. startswith (clean_reply raw) q"
        by (simp add: clean_reply_def)
      with lf show False by (auto simp: label_free_def list_all_iff)
    qed
  next
    assume "\<not> cut_uncovers_label raw"
    then have "\<not> uncovers [] prefixes_to_remove (strip raw)"
      by (simp add: cut_uncovers_label_def)
    with no_uncover_label_free [of "[]" "strip raw" prefixes_to_remove]
    show "label_free (clean_reply raw)"
      by (simp add: clean_reply_def label_free_def list_all_iff)
  qed
  have idem: "(clean_reply (clean_reply raw) = clean_reply raw) = label_free (clean_reply raw)"
  proof
    assume eq: "clean_reply (clean_reply raw) = clean_reply raw"
    have "\<forall>p\<in>set prefixes_to_remove. \<not> startswith (clean_reply raw) p"
    proof (rule ballI, rule notI)
      fix p assume "p \<in> set prefixes_to_remove" "startswith (clean_reply raw) p"
      then have "length (remove_prefixes prefixes_to_remove (clean_reply raw))
                   < length (clean_reply raw)"
        using no_empty_prefix by (rule remove_some_shorter)
      then show False
        using eq by (simp add: clean_reply_def [of "clean_reply raw"] clean_stripped)
    qed
    then show "label_free (clean_reply raw)" by (simp add: label_free_def list_all_iff)
  next
    assume "label_free (clean_reply raw)"
    then have "\<forall>p\<in>set prefixes_to_remove. \<not> startswith (clean_reply raw) p"
      by (simp add: label_free_def list_all_iff)
    then have "remove_prefixes prefixes_to_remove (clean_reply raw) = clean_reply raw"
      by (rule remove_none)
    then show "clean_reply (clean_reply raw) = clean_reply raw"
      by (simp add: clean_reply_def [of "clean_reply raw"] clean_stripped)
  qed
  have single: "label_free (clean_reply raw) \<and> clean_reply (clean_reply raw) = clean_reply raw"
    if h: "at_most_one_label (strip raw)"
  proof -
    from h have "\<forall>p\<in>set prefixes_to_remove.
             startswith (strip raw) p \<longrightarrow> label_free (cut_prefix (strip raw) p)"
      by (simp add: at_most_one_label_def list_all_iff)
    from single_label_no_uncover [OF this, of "[]" prefixes_to_remove]
    have "\<not> cut_uncovers_label raw" by (simp add: cut_uncovers_label_def)
    with exact idem show ?thesis by simp
  qed
  from single exact idem show ?thesis by blast
qed

theorem clean_reply_label_free_iff_witness:
  "at_most_one_label (strip ''  Reply: Congrats on the launch! '')
   \<and> removed_labels ''  Reply: Congrats on the launch! '' = [''Reply:'']
   \<and> \<not> cut_uncovers_label ''  Reply: Congrats on the launch! ''
   \<and> clean_reply ''  Reply: Congrats on the launch! '' = ''Congrats on the launch!''
   \<and> label_free (clean_reply ''  Reply: Congrats on the launch! '')
   \<and> clean_reply (clean_reply ''  Reply: Congrats on the launch! '')
       = clean_reply ''  Reply: Congrats on the launch! ''"
proof -
  have h: "at_most_one_label (strip ''  Reply: Congrats on the launch! '')"
    by code_simp
  have a: "removed_labels ''  Reply: Congrats on the launch! '' = [''Reply:'']"
    by code_simp
  have c: "clean_reply ''  Reply: Congrats on the launch! '' = ''Congrats on the launch!''"
    by code_simp
  from clean_reply_label_free_iff [of "''  Reply: Congrats on the launch! ''"] h
  have "label_free (clean_reply ''  Reply: Congrats on the launch! '')"
    and "clean_reply (clean_reply ''  Reply: Congrats on the launch! '')
           = clean_reply ''  Reply: Congrats on the launch! ''"
    and "\<not> cut_uncovers_label ''  Reply: Congrats on the launch! ''"
    by blast+
  with h a c show ?thesis by simp
qed

text \<open>
  The claim C4 as stated fails: \<open>Here's my reply:\<close> stands after \<open>Reply:\<close> in the list, so
  cutting it can uncover a \<open>Reply:\<close> that the loop has already passed. The output then
  begins with a label prefix, and a second cleaning changes it.
\<close>

theorem clean_reply_not_idempotent_counterexample:
  "clean_reply ''Here's my reply: Reply: hi'' = ''Reply: hi''
   \<and> ''Reply:'' \<in> set prefixes_to_remove
   \<and> startswith (clean_reply ''Here's my reply: Reply: hi'') ''Reply:''
   \<and> clean_reply (clean_reply ''Here's my reply: Reply: hi'')
       \<noteq> clean_reply ''Here's my reply: Reply: hi''
   \<and> cut_uncovers_label ''Here's my reply: Reply: hi''"
proof -
  have a: "clean_reply ''Here's my reply: Reply: hi'' = ''Reply: hi''"
    by code_simp
  have b: "clean_reply ''Reply: hi'' = ''hi''"
    by code_simp
  have c: "''Reply:'' \<in> set prefixes_to_remove"
    by (simp add: prefixes_to_remove_def)
  have d: "startswith ''Reply: hi'' ''Reply:''"
    by code_simp
  have e: "cut_uncovers_label ''Here's my reply: Reply: hi''"
    by code_simp
  from a b c d e show ?thesis by simp
qed

section \<open>Facts about sequencing, splitting and lower case\<close>

lemma bind_r_simps [simp]: "bind_r (Inl e) f = Inl e" "bind_r (Inr x) f = f x"
  by (simp_all add: bind_r_def)

lemma bind_r_eq_Inr: "(bind_r m f = Inr y) = (\<exists>x. m = Inr x \<and> f x = Inr y)"
  by (cases m) simp_all

lemma bind_io_ok:
  "(bind_io m f w = (Inr y, w2)) = (\<exists>x w1. m w = (Inr x, w1) \<and> f x w1 = (Inr y, w2))"
  by (auto simp: bind_io_def split: prod.splits sum.splits)

lemma contains_split_once: "sep \<noteq> [] \<Longrightarrow> contains sep s = (split_once sep s \<noteq> None)"
  by (induction s) (auto simp: startswith_def split: option.splits)

lemma split_once_append: "split_once sep s = Some (a, b) \<Longrightarrow> s = a @ sep @ b"
proof (induction s arbitrary: a)
  case Nil then show ?case by simp
next
  case (Cons c cs)
  show ?case
  proof (cases "startswith (c # cs) sep")
    case True
    with Cons.prems have "a = []" "b = drop (length sep) (c # cs)" by auto
    moreover from True have "take (length sep) (c # cs) = sep" by (simp add: startswith_def)
    ultimately show ?thesis by (metis append_Nil append_take_drop_id)
  next
    case False
    with Cons.prems obtain a' where a': "split_once sep cs = Some (a', b)" "a = c # a'"
      by (auto split: option.splits)
    with Cons.IH [of a'] show ?thesis by simp
  qed
qed

lemma split_once_before_free:
  "sep \<noteq> [] \<Longrightarrow> split_once sep s = Some (a, b) \<Longrightarrow> split_once sep a = None"
proof (induction s arbitrary: a)
  case Nil then show ?case by simp
next
  case (Cons c cs)
  show ?case
  proof (cases "startswith (c # cs) sep")
    case True
    with Cons.prems show ?thesis by auto
  next
    case False
    with Cons.prems obtain a' where a': "split_once sep cs = Some (a', b)" "a = c # a'"
      by (auto split: option.splits)
    from a'(1) have cs: "cs = a' @ sep @ b" by (rule split_once_append)
    have "\<not> startswith (c # a') sep"
    proof
      assume "startswith (c # a') sep"
      then have t: "take (length sep) (c # a') = sep" by (simp add: startswith_def)
      then have "length (take (length sep) (c # a')) = length sep" by simp
      then have "length sep \<le> length (c # a')" by simp
      then have "take (length sep) ((c # a') @ sep @ b) = take (length sep) (c # a')"
        unfolding take_append by simp
      with t cs have "startswith (c # cs) sep" by (simp add: startswith_def)
      with False show False by simp
    qed
    moreover from Cons.IH [OF Cons.prems(1) a'(1)] have "split_once sep a' = None" .
    ultimately show ?thesis using a'(2) by simp
  qed
qed

lemma text_before_idem: "sep \<noteq> [] \<Longrightarrow> text_before sep (text_before sep s) = text_before sep s"
  by (auto simp: text_before_def split: option.splits dest: split_once_before_free)

lemma split_all_hd:
  "sep \<noteq> [] \<Longrightarrow> split_all sep s \<noteq> [] \<and> hd (split_all sep s) = text_before sep s"
  by (subst (1 2) split_all.simps) (simp add: text_before_def split: option.splits)

lemma between_fences_eq:
  assumes "fence \<noteq> []" "contains fence text"
  shows "between_fences fence text
           = Inr (strip (text_before ''```'' (text_before fence (text_after fence text))))"
proof -
  from assms obtain a b where ab: "split_once fence text = Some (a, b)"
    by (auto simp: contains_split_once)
  then have sa: "split_all fence text = a # split_all fence b"
    using assms(1) by (subst split_all.simps) simp
  have i1: "py_index (a # split_all fence b) (Suc 0) = Inr (text_before fence b)"
    using split_all_hd [OF assms(1), of b]
    by (cases "split_all fence b") (auto simp: py_index_def)
  have ne: "''```'' \<noteq> []" by simp
  have i0: "py_index (split_all ''```'' t) 0 = Inr (text_before ''```'' t)" for t
    using split_all_hd [OF ne, of t]
    by (cases "split_all ''```'' t") (auto simp: py_index_def)
  show ?thesis
    using assms(1) ab
    by (simp add: between_fences_def py_split_def sa i1 i0 text_after_def)
qed

lemma generate_response_cases:
  "generate_response E p sp w =
     (case llm_invoke E (sent w) (build_messages p sp) of
        Inr s \<Rightarrow> (Inr s, w\<lparr>sent := sent w @ [build_messages p sp]\<rparr>)
      | Inl e \<Rightarrow> (Inr fallback_response,
                  w\<lparr>sent := sent w @ [build_messages p sp],
                    printed := printed w @ [PrintedExn ''Error generating response: '' e]\<rparr>))"
  by (simp add: generate_response_def try_except_def invoke_def any_exception_def bind_io_def
      print_def pure_def split: sum.splits)

lemma of_char_lt: "(of_char c :: nat) < 256"
  by (metis of_char_mod_256 mod_less_divisor zero_less_numeral)

lemma lower_char_idem: "lower_char (lower_char c) = lower_char c"
proof -
  have r: "of_char (char_of (of_char c + 32 :: nat)) = (of_char c + 32 :: nat)"
    if "(of_char c :: nat) \<le> 222"
    using that by (simp add: of_char_of)
  show ?thesis
    unfolding lower_char_def Let_def using r by auto
qed

lemma same_letter_lower: "same_letter a b \<Longrightarrow> lower_char a = lower_char b"
  unfolding same_letter_def by (metis lower_char_idem)

lemma equal_up_to_case_lower: "equal_up_to_case p q \<Longrightarrow> lower p = lower q"
  unfolding equal_up_to_case_def lower_def
  by (induction rule: list_all2_induct) (auto dest: same_letter_lower)

section \<open>Facts about the Analyze stage and the persistence layer\<close>

lemma ensure_keys_not_dict:
  "\<forall>d. v \<noteq> PDict d \<Longrightarrow> ensure_keys ks v = Inr v' \<Longrightarrow> v' = v"
proof (induction ks)
  case Nil then show ?case by simp
next
  case (Cons k ks)
  then show ?case
    by (cases v) (auto simp: py_in_def py_setitem_def bind_r_eq_Inr split: if_splits)
qed

lemma ensure_keys_dict:
  "ensure_keys ks (PDict d) = Inr a \<Longrightarrow>
     \<exists>d'. a = PDict d'
        \<and> (\<forall>k\<in>set ks. map_of d' k \<noteq> None)
        \<and> (\<forall>k v. map_of d k = Some v \<longrightarrow> map_of d' k = Some v)
        \<and> (\<forall>k v. map_of d' k = Some v \<longrightarrow> map_of d k = Some v \<or> v = PStr ''unknown'')"
proof (induction ks arbitrary: d)
  case Nil then show ?case by auto
next
  case (Cons k ks)
  show ?case
  proof (cases "map_of d k")
    case None
    with Cons.prems have "ensure_keys ks (PDict (AList.update k (PStr ''unknown'') d)) = Inr a"
      by (simp add: py_in_def py_setitem_def)
    from Cons.IH [OF this] obtain d' where d': "a = PDict d'"
      "\<forall>k\<in>set ks. map_of d' k \<noteq> None"
      "\<forall>j v. map_of (AList.update k (PStr ''unknown'') d) j = Some v \<longrightarrow> map_of d' j = Some v"
      "\<forall>j v. map_of d' j = Some v \<longrightarrow>
          map_of (AList.update k (PStr ''unknown'') d) j = Some v \<or> v = PStr ''unknown''"
      by blast
    from d'(3) have "map_of d' k = Some (PStr ''unknown'')" by (simp add: update_conv')
    moreover have "\<forall>j v. map_of d j = Some v \<longrightarrow> map_of d' j = Some v"
    proof (intro allI impI)
      fix j v assume jv: "map_of d j = Some v"
      with None have "j \<noteq> k" by auto
      with jv have "map_of (AList.update k (PStr ''unknown'') d) j = Some v"
        by (simp add: update_conv')
      with d'(3) show "map_of d' j = Some v" by blast
    qed
    moreover have "\<forall>j v. map_of d' j = Some v \<longrightarrow> map_of d j = Some v \<or> v = PStr ''unknown''"
    proof (intro allI impI)
      fix j v assume "map_of d' j = Some v"
      with d'(4) have "map_of (AList.update k (PStr ''unknown'') d) j = Some v
                         \<or> v = PStr ''unknown''" by blast
      then show "map_of d j = Some v \<or> v = PStr ''unknown''"
        by (auto simp: update_conv' split: if_splits)
    qed
    ultimately show ?thesis using d'(1,2) by auto
  next
    case (Some x)
    with Cons.prems have "ensure_keys ks (PDict d) = Inr a"
      by (simp add: py_in_def)
    from Cons.IH [OF this] Some show ?thesis by fastforce
  qed
qed

lemma ensure_keys_total: "\<exists>d'. ensure_keys ks (PDict d) = Inr (PDict d')"
proof (induction ks arbitrary: d)
  case Nil then show ?case by simp
next
  case (Cons k ks)
  then show ?case by (cases "map_of d k") (simp_all add: py_in_def py_setitem_def)
qed

lemma analysis_of_text_empty_topics:
  assumes "extract_json_text text = Inr t" and "json_loads E t = Inr (PDict d0)"
    and "map_of d0 ''topics'' = Some (PList [])"
  shows "\<exists>d. analysis_of_text E text = Inr (PDict d) \<and> map_of d ''topics'' = Some (PList [])"
proof -
  from ensure_keys_total obtain d' where e: "ensure_keys required_keys (PDict d0) = Inr (PDict d')"
    by blast
  from ensure_keys_dict [OF e] assms(3) have tp: "map_of d' ''topics'' = Some (PList [])"
    by auto
  with assms(1,2) e have "analysis_of_text E text = Inr (PDict d')"
    by (simp add: analysis_of_text_def py_getitem_def isinstance_list_def)
  with tp show ?thesis by blast
qed

lemma analysis_of_text_shape:
  assumes "analysis_of_text E text = Inr a"
  shows "\<exists>d vs. a = PDict d \<and> (\<forall>k\<in>set required_keys. map_of d k \<noteq> None)
           \<and> map_of d ''topics'' = Some (PList vs)
           \<and> (vs = []) = (\<exists>t d0. extract_json_text text = Inr t
                              \<and> json_loads E t = Inr (PDict d0)
                              \<and> map_of d0 ''topics'' = Some (PList []))"
proof -
  from assms obtain t loaded data topics where
    t: "extract_json_text text = Inr t" and l: "json_loads E t = Inr loaded"
    and e: "ensure_keys required_keys loaded = Inr data"
    and g: "py_getitem data ''topics'' = Inr topics"
    and r: "(if \<not> isinstance_list topics
             then bind_r (py_getitem data ''topics'') (\<lambda>topic.
                    py_setitem data ''topics'' (PList [topic]))
             else Inr data) = Inr a"
    unfolding analysis_of_text_def bind_r_eq_Inr by blast
  have "\<exists>d0. loaded = PDict d0"
  proof (rule ccontr)
    assume "\<not> (\<exists>d0. loaded = PDict d0)"
    then have n: "\<forall>d. loaded \<noteq> PDict d" by simp
    from ensure_keys_not_dict [OF n e] have "data = loaded" .
    with n g show False by (cases loaded) (auto simp: py_getitem_def)
  qed
  then obtain d0 where d0: "loaded = PDict d0" ..
  from ensure_keys_dict [OF e [unfolded d0]] obtain d' where d': "data = PDict d'"
    "\<forall>k\<in>set required_keys. map_of d' k \<noteq> None"
    "\<forall>k v. map_of d0 k = Some v \<longrightarrow> map_of d' k = Some v"
    "\<forall>k v. map_of d' k = Some v \<longrightarrow> map_of d0 k = Some v \<or> v = PStr ''unknown''"
    by blast
  from g d'(1) have tp: "map_of d' ''topics'' = Some topics"
    by (auto simp: py_getitem_def split: option.splits)
  have rhs: "(\<exists>t d0. extract_json_text text = Inr t \<and> json_loads E t = Inr (PDict d0)
                \<and> map_of d0 ''topics'' = Some (PList []))
             = (topics = PList [])"
  proof
    assume "\<exists>t d0. extract_json_text text = Inr t \<and> json_loads E t = Inr (PDict d0)
                \<and> map_of d0 ''topics'' = Some (PList [])"
    with t l d0 have "map_of d0 ''topics'' = Some (PList [])" by auto
    with d'(3) tp show "topics = PList []" by auto
  next
    assume "topics = PList []"
    with tp d'(4) have "map_of d0 ''topics'' = Some (PList [])" by fastforce
    with t l d0 show "\<exists>t d0. extract_json_text text = Inr t \<and> json_loads E t = Inr (PDict d0)
                \<and> map_of d0 ''topics'' = Some (PList [])" by blast
  qed
  show ?thesis
  proof (cases "isinstance_list topics")
    case True
    then obtain vs where vs: "topics = PList vs"
      by (cases topics) (auto simp: isinstance_list_def)
    from True r have a: "a = PDict d'" using d'(1) by simp
    from rhs vs have "(vs = []) = (\<exists>t d0. extract_json_text text = Inr t
                              \<and> json_loads E t = Inr (PDict d0)
                              \<and> map_of d0 ''topics'' = Some (PList []))" by simp
    with a d'(2) tp vs show ?thesis by blast
  next
    case False
    with r g d'(1) have a: "a = PDict (AList.update ''topics'' (PList [topics]) d')"
      by (simp add: py_setitem_def)
    have k: "\<forall>k\<in>set required_keys. map_of (AList.update ''topics'' (PList [topics]) d') k \<noteq> None"
      using d'(2) by (simp add: update_conv')
    have m: "map_of (AList.update ''topics'' (PList [topics]) d') ''topics''
                     = Some (PList [topics])"
      by (simp add: update_conv')
    from False have "topics \<noteq> PList []" by (auto simp: isinstance_list_def)
    with rhs have "([topics] = []) = (\<exists>t d0. extract_json_text text = Inr t
                              \<and> json_loads E t = Inr (PDict d0)
                              \<and> map_of d0 ''topics'' = Some (PList []))" by simp
    with a k m show ?thesis by blast
  qed
qed

lemma parse_analysis_cases:
  "parse_analysis E text w =
     (case analysis_of_text E text of
        Inr a \<Rightarrow> (Inr a, w)
      | Inl e \<Rightarrow> if decode_or_key_error e
                 then (Inr fallback_analysis,
                       w\<lparr>printed := printed w @ [PrintedExn ''Error parsing analysis: '' e]\<rparr>)
                 else (Inl e, w))"
  by (simp add: parse_analysis_def try_except_def lift_r_def bind_io_def print_def pure_def
      split: sum.splits)

lemma analysis_of_text_decode_error:
  "extract_json_text text = Inr payload \<Longrightarrow> json_loads E payload = Inl e
     \<Longrightarrow> analysis_of_text E text = Inl e"
  by (simp add: analysis_of_text_def)

lemma generate_response_ok:
  "\<exists>s w1. generate_response E p sp w = (Inr s, w1) \<and> clock_reads w1 = clock_reads w"
  by (cases "llm_invoke E (sent w) (build_messages p sp)")
    (simp_all add: generate_response_cases)

lemma analyze_post_run:
  "\<exists>raw w1. analyze_post E platform post_text w = parse_analysis E raw w1
            \<and> clock_reads w1 = clock_reads w"
proof -
  from generate_response_ok obtain s w1 where
    "generate_response E (analyzer_prompt E platform post_text)
       (Some ''You are an expert in social media communication analysis.'') w = (Inr s, w1)"
    "clock_reads w1 = clock_reads w" by blast
  then have "analyze_post E platform post_text w = parse_analysis E s w1"
    by (simp add: analyze_post_def bind_io_def)
  with \<open>clock_reads w1 = clock_reads w\<close> show ?thesis by blast
qed

lemma fallback_analysis_shape:
  "\<forall>k\<in>set required_keys. map_of [(''intent'', PStr ''unknown''),
            (''sentiment'', PStr ''neutral''),
            (''topics'', PList [PStr ''general'']),
            (''response_type'', PStr ''engagement'')] k \<noteq> None"
  by (simp add: required_keys_def)

lemma parse_analysis_shape:
  assumes "parse_analysis E text w = (Inr a, w')"
  shows "\<exists>d vs. a = PDict d \<and> (\<forall>k\<in>set required_keys. map_of d k \<noteq> None)
           \<and> map_of d ''topics'' = Some (PList vs)
           \<and> (vs = []) = (\<exists>t d0. extract_json_text text = Inr t
                              \<and> json_loads E t = Inr (PDict d0)
                              \<and> map_of d0 ''topics'' = Some (PList []))"
proof (cases "analysis_of_text E text")
  case (Inr b)
  with assms have "a = b" by (simp add: parse_analysis_cases)
  with analysis_of_text_shape [OF Inr] show ?thesis by simp
next
  case (Inl e)
  with assms have a: "a = fallback_analysis"
    by (simp add: parse_analysis_cases split: if_splits)
  have "\<not> (\<exists>t d0. extract_json_text text = Inr t \<and> json_loads E t = Inr (PDict d0)
                \<and> map_of d0 ''topics'' = Some (PList []))"
  proof
    assume "\<exists>t d0. extract_json_text text = Inr t \<and> json_loads E t = Inr (PDict d0)
                \<and> map_of d0 ''topics'' = Some (PList [])"
    then obtain t d0 where "extract_json_text text = Inr t" "json_loads E t = Inr (PDict d0)"
      "map_of d0 ''topics'' = Some (PList [])" by blast
    from analysis_of_text_empty_topics [OF this] Inl show False by simp
  qed
  with a show ?thesis
    using fallback_analysis_shape by (auto simp: fallback_analysis_def)
qed

lemma parse_analysis_clock: "parse_analysis E text w = (r, w') \<Longrightarrow> clock_reads w' = clock_reads w"
  by (auto simp: parse_analysis_cases split: sum.splits if_splits)

lemma analyze_post_stages:
  assumes "analyze_post E platform post_text w = (Inr a, w')"
  shows "\<exists>raw w1. generate_response E (analyzer_prompt E platform post_text)
                     (Some ''You are an expert in social media communication analysis.'') w
                   = (Inr raw, w1)
               \<and> parse_analysis E raw w1 = (Inr a, w')"
proof -
  from generate_response_ok obtain s w1 where
    g: "generate_response E (analyzer_prompt E platform post_text)
       (Some ''You are an expert in social media communication analysis.'') w = (Inr s, w1)"
    by blast
  then have "analyze_post E platform post_text w = parse_analysis E s w1"
    by (simp add: analyze_post_def bind_io_def)
  with assms g show ?thesis by simp
qed

lemma analyze_post_shape:
  assumes "analyze_post E platform post_text w = (Inr a, w')"
  shows "\<exists>d vs. a = PDict d \<and> (\<forall>k\<in>set required_keys. map_of d k \<noteq> None)
           \<and> map_of d ''topics'' = Some (PList vs)"
proof -
  from analyze_post_stages [OF assms] obtain raw w1
    where "parse_analysis E raw w1 = (Inr a, w')" by blast
  from parse_analysis_shape [OF this] show ?thesis by blast
qed

lemma analyze_post_clock:
  "analyze_post E platform post_text w = (r, w') \<Longrightarrow> clock_reads w' = clock_reads w"
proof -
  assume a: "analyze_post E platform post_text w = (r, w')"
  from analyze_post_run [of E platform post_text w] obtain raw w1
    where b: "analyze_post E platform post_text w = parse_analysis E raw w1"
      and c: "clock_reads w1 = clock_reads w" by blast
  from a b have "parse_analysis E raw w1 = (r, w')" by simp
  from parse_analysis_clock [OF this] c show ?thesis by simp
qed

lemma connect_never_raises: "\<exists>w'. connect E w = (Inr (), w')"
  by (auto simp: connect_def try_except_def any_exception_def print_def split: prod.splits sum.splits)

lemma store_reply_with_timestamp:
  assumes "map_of reply_data ''created_at'' \<noteq> None"
  shows "\<exists>res w'. store_reply E reply_data w = (Inr res, w')"
proof -
  obtain w1 where w1: "(if \<not> db w then connect E w else (Inr (), w)) = (Inr (), w1)"
    using connect_never_raises [of E w] by (cases "db w") auto
  show ?thesis
    using assms w1
    by (auto simp: store_reply_def bind_io_def try_except_def any_exception_def print_def
        pure_def lift_r_def split: prod.splits sum.splits)
qed

lemma store_reply_without_timestamp:
  "db w \<Longrightarrow> map_of reply_data ''created_at'' = None
     \<Longrightarrow> fst (store_reply E reply_data w) = Inl AttributeError"
  by (simp add: store_reply_def bind_io_def throw_def)

section \<open>Facts about the orchestrator\<close>

lemma parse_strategy_clock:
  "parse_strategy E raw w = (r, w') \<Longrightarrow> clock_reads w' = clock_reads w"
  by (auto simp: parse_strategy_def try_except_def lift_r_def bind_io_def print_def pure_def
      split: sum.splits if_splits)

lemma determine_strategy_clock:
  assumes "determine_strategy E platform post_text analysis w = (r, w')"
  shows "clock_reads w' = clock_reads w"
proof (cases "strategy_prompt E platform post_text analysis")
  case (Inl e)
  with assms show ?thesis by (simp add: determine_strategy_def bind_io_def lift_r_def)
next
  case (Inr prompt)
  from generate_response_ok obtain s w1 where
    g: "generate_response E prompt (Some (strategy_system_prompt platform)) w = (Inr s, w1)"
    and c: "clock_reads w1 = clock_reads w" by blast
  from assms Inr g have "parse_strategy E s w1 = (r, w')"
    by (simp add: determine_strategy_def bind_io_def lift_r_def)
  from parse_strategy_clock [OF this] c show ?thesis by simp
qed

lemma generate_platform_reply_clock:
  assumes "generate_platform_reply E platform post_text analysis strategy w = (r, w')"
  shows "clock_reads w' = clock_reads w"
proof (cases "generator_prompt E platform post_text analysis strategy")
  case (Inl e)
  with assms show ?thesis by (simp add: generate_platform_reply_def bind_io_def lift_r_def)
next
  case (Inr prompt)
  from generate_response_ok obtain s w1 where
    g: "generate_response E prompt (Some (reply_system_prompt platform)) w = (Inr s, w1)"
    and c: "clock_reads w1 = clock_reads w" by blast
  from assms Inr g have "w' = w1"
    by (simp add: generate_platform_reply_def bind_io_def lift_r_def pure_def)
  with c show ?thesis by simp
qed

lemma print_eq: "(print l w = (Inr u, w1)) = (w1 = w\<lparr>printed := printed w @ [l]\<rparr>)"
  by (auto simp: print_def)

lemma now_eq:
  "(now E w = (Inr x, w1))
     = (x = utc_now E (clock_reads w) \<and> w1 = w\<lparr>clock_reads := Suc (clock_reads w)\<rparr>)"
  by (auto simp: now_def)

lemma lift_r_eq: "(lift_r m w = (Inr x, w1)) = (m = Inr x \<and> w1 = w)"
  by (auto simp: lift_r_def)

lemma pure_eq: "(pure x w = (Inr y, w1)) = (y = x \<and> w1 = w)"
  by (auto simp: pure_def)

lemma insert_document_fields:
  "insert_document E document = (outcome, document') \<Longrightarrow> k \<noteq> ''_id''
     \<Longrightarrow> map_of document' k = map_of document k"
  by (auto simp: insert_document_def update_conv' split: prod.splits option.splits)

lemma store_reply_fields:
  assumes "store_reply E reply_data w = (Inr (res, reply_data'), w')" and "k \<noteq> ''_id''"
  shows "map_of reply_data' k = map_of reply_data k"
proof -
  obtain outcome document where i: "insert_document E reply_data = (outcome, document)"
    by (cases "insert_document E reply_data")
  from insert_document_fields [OF i assms(2)] have m: "map_of document k = map_of reply_data k" .
  from assms(1) i have "reply_data' = reply_data \<or> reply_data' = document"
    by (auto simp: store_reply_def bind_io_def try_except_def any_exception_def print_def
        pure_def lift_r_def throw_def split: prod.splits sum.splits if_splits)
  with m show ?thesis by auto
qed

lemma generate_reply_run:
  assumes "generate_reply E platform post_text context include_analysis w = (Inr r, w')"
  shows "\<exists>analysis wa strategy ws reply_text wr summary stored_id wd.
      analyze_post E platform post_text (w\<lparr>clock_reads := Suc (clock_reads w)\<rparr>)
        = (Inr analysis, wa)
    \<and> determine_strategy E platform post_text analysis
        (wa\<lparr>printed := printed wa @ [PrintedVal ''Post analysis: '' analysis, Printed ''\<newline>'']\<rparr>)
        = (Inr strategy, ws)
    \<and> generate_platform_reply E platform post_text analysis strategy
        (ws\<lparr>printed := printed ws @ [PrintedVal ''Response strategy: '' strategy, Printed ''\<newline>'']\<rparr>)
        = (Inr reply_text, wr)
    \<and> py_get strategy ''strategy_summary'' PNone = Inr summary
    \<and> store_reply E
         ((if include_analysis then AList.update ''analysis'' analysis else id)
            [(''reply_text'', PStr reply_text),
             (''platform'', PStr platform),
             (''post_text'', PStr post_text),
             (''created_at'', PDatetime (utc_now E (Suc (clock_reads wr)))),
             (''metadata'',
                PDict [(''generation_time'',
                          PFloat (total_seconds (utc_now E (clock_reads wr))
                                    (utc_now E (clock_reads w)))),
                       (''strategy'', summary),
                       (''model'', PStr ''Google Gemini'')])]) wd
        = (Inr (stored_id, r), w')"
  using assms
  apply (auto simp: generate_reply_def bind_io_ok print_eq now_eq lift_r_eq pure_eq Let_def
      split: if_splits prod.splits)
    apply blast+
  done

lemma total_seconds_nonneg: "earlier \<le> later \<Longrightarrow> 0 \<le> total_seconds later earlier"
  by (simp add: total_seconds_def)

section \<open>Claims about the gateway, the fence selection, the platform tables and the context\<close>

text \<open>
  Claim C6. For every user prompt and optional system prompt the gateway returns a text
  and never raises: when the model invocation fails, whatever the failure, the caller
  gets the literal fallback sentence.
\<close>

theorem generate_response_never_raises:
  "(\<exists>s. fst (generate_response E prompt_message system_prompt w) = Inr s)
   \<and> (\<forall>e. llm_invoke E (sent w) (build_messages prompt_message system_prompt) = Inl e \<longrightarrow>
          fst (generate_response E prompt_message system_prompt w)
            = Inr ''I couldn't generate a proper response at this time.'')"
  by (simp add: generate_response_cases fallback_response_def split: sum.splits)

theorem generate_response_never_raises_witness:
  "llm_invoke (sample_env []) (sent world0) (build_messages ''Write a reply'' (Some ''Be kind''))
     = Inl (LibraryError ''ConnectionError'')
   \<and> fst (generate_response (sample_env []) ''Write a reply'' (Some ''Be kind'') world0)
       = Inr ''I couldn't generate a proper response at this time.''"
proof -
  have a: "llm_invoke (sample_env []) (sent world0)
             (build_messages ''Write a reply'' (Some ''Be kind''))
           = Inl (LibraryError ''ConnectionError'')"
    by (simp add: sample_env_def)
  from generate_response_never_raises
         [of "sample_env []" "''Write a reply''" "Some ''Be kind''" world0] a
  show ?thesis by blast
qed

text \<open>
  Claim C10. The optional context argument of the orchestrator has no influence: for any
  two values of it the run returns the same record and leaves the same state, that is
  the same gateway calls with the same prompts, the same printed lines and the same
  database state.
\<close>

theorem context_has_no_influence:
  "generate_reply E platform post_text context1 include_analysis w
     = generate_reply E platform post_text context2 include_analysis w"
  by (simp add: generate_reply_def)

theorem context_has_no_influence_witness:
  "generate_reply (sample_env []) ''twitter'' ''Just shipped a new feature!''
      (Some ''posted by our CEO'') True world0
     = generate_reply (sample_env []) ''twitter'' ''Just shipped a new feature!'' None True world0"
  by (rule context_has_no_influence)

text \<open>
  Claim C8. The persona lookup of the Strategize stage and the style lookup of the Compose
  stage are case-insensitive: platform strings that are equal up to letter case select
  the same persona and the same style, as \<open>Twitter\<close>, \<open>twitter\<close> and \<open>TWITTER\<close> do.
\<close>

theorem platform_lookup_case_insensitive:
  "equal_up_to_case p q \<Longrightarrow>
     strategy_system_prompt p = strategy_system_prompt q \<and> platform_style p = platform_style q"
  by (simp add: strategy_system_prompt_def platform_style_def equal_up_to_case_lower)

theorem platform_lookup_case_insensitive_witness:
  "equal_up_to_case ''Twitter'' ''TWITTER'' \<and> equal_up_to_case ''twitter'' ''TWITTER''
   \<and> strategy_system_prompt ''Twitter'' = strategy_system_prompt ''TWITTER''
   \<and> strategy_system_prompt ''twitter'' = strategy_system_prompt ''TWITTER''
   \<and> strategy_system_prompt ''TWITTER''
       = ''You are an expert in crafting authentic tweets and replies.''
   \<and> platform_style ''Twitter'' = platform_style ''TWITTER''
   \<and> platform_style ''twitter'' = platform_style ''TWITTER''
   \<and> platform_style ''TWITTER''
       = ''brief (under 280 chars), conversational, often using hashtags, casual language''"
proof -
  have a: "equal_up_to_case ''Twitter'' ''TWITTER''" by code_simp
  have b: "equal_up_to_case ''twitter'' ''TWITTER''" by code_simp
  have c: "strategy_system_prompt ''TWITTER''
             = ''You are an expert in crafting authentic tweets and replies.''"
    by code_simp
  have d: "platform_style ''TWITTER''
             = ''brief (under 280 chars), conversational, often using hashtags, casual language''"
    by code_simp
  from platform_lookup_case_insensitive [OF a] platform_lookup_case_insensitive [OF b] a b c d
  show ?thesis by simp
qed

text \<open>
  Claim C9, as the code has it. The fence selection never raises. If the text contains
  the marker \<open>```json\<close>, the parse input is the text after the first such marker, cut
  before the next \<open>```json\<close> marker and then before the first \<open>```\<close> (each cut only if
  the marker occurs), with surrounding white space stripped. Otherwise, if the text
  contains \<open>```\<close>, it is the text after the first \<open>```\<close>, cut before the next \<open>```\<close> if
  there is one, stripped. Otherwise it is the raw text, unmodified.
\<close>

theorem extract_json_text_selection:
  "extract_json_text text =
     Inr (if contains ''```json'' text
          then strip (text_before ''```'' (text_before ''```json'' (text_after ''```json'' text)))
          else if contains ''```'' text
          then strip (text_before ''```'' (text_after ''```'' text))
          else text)"
proof -
  have a: "''```json'' \<noteq> []" and b: "''```'' \<noteq> []" by simp_all
  show ?thesis
    unfolding extract_json_text_def
    by (simp add: between_fences_eq [OF a] between_fences_eq [OF b] text_before_idem [OF b])
qed

theorem extract_json_text_selection_witness:
  \<open>contains ''```json'' ''Sure: ```json {"intent": "question"} ``` done''
   \<and> extract_json_text ''Sure: ```json {"intent": "question"} ``` done''
       = Inr ''{"intent": "question"}''\<close>
proof -
  have c: \<open>contains ''```json'' ''Sure: ```json {"intent": "question"} ``` done''\<close>
    by code_simp
  have v: \<open>strip (text_before ''```'' (text_before ''```json''
             (text_after ''```json'' ''Sure: ```json {"intent": "question"} ``` done'')))
           = ''{"intent": "question"}''\<close>
    by code_simp
  from extract_json_text_selection [of \<open>''Sure: ```json {"intent": "question"} ``` done''\<close>] c v
  show ?thesis by simp
qed

text \<open>
  The claim C9 as stated fails in two ways. A text with an opening \<open>```json\<close> fence and no
  closing fence contains no fenced block, so the raw text should be used; the code uses
  the text after the marker. And the content between a fence pair is not used as it
  stands: it is stripped first.
\<close>

theorem fence_selection_counterexample:
  \<open>spec_selection ''```json{"intent": "question"}'' = ''```json{"intent": "question"}''
   \<and> extract_json_text ''```json{"intent": "question"}'' = Inr ''{"intent": "question"}''
   \<and> extract_json_text ''```json{"intent": "question"}''
       \<noteq> Inr (spec_selection ''```json{"intent": "question"}'')
   \<and> spec_selection ''``` {} ```'' = '' {} ''
   \<and> extract_json_text ''``` {} ```'' = Inr ''{}''
   \<and> extract_json_text ''``` {} ```'' \<noteq> Inr (spec_selection ''``` {} ```'')\<close>
proof -
  have a: \<open>spec_selection ''```json{"intent": "question"}'' = ''```json{"intent": "question"}''\<close>
    by code_simp
  have b: \<open>extract_json_text ''```json{"intent": "question"}'' = Inr ''{"intent": "question"}''\<close>
    by code_simp
  have c: \<open>spec_selection ''``` {} ```'' = '' {} ''\<close>
    by code_simp
  have d: \<open>extract_json_text ''``` {} ```'' = Inr ''{}''\<close>
    by code_simp
  show ?thesis unfolding a b c d by simp
qed

section \<open>Claims about the Analyze stage and the persistence layer\<close>

text \<open>
  Claim C1, as the code has it. When the selected text is not parseable (\<open>json.loads\<close>
  raises \<open>JSONDecodeError\<close>), the Analyze-stage extraction returns the fallback record
  of lines 66 to 71. It contains every required field: intent \<open>unknown\<close>, sentiment
  \<open>neutral\<close>, topics \<open>[general]\<close> and response type \<open>engagement\<close>.
\<close>

theorem parse_analysis_fallback:
  "extract_json_text text = Inr payload \<Longrightarrow> json_loads E payload = Inl JSONDecodeError \<Longrightarrow>
     fst (parse_analysis E text w)
       = Inr (PDict [(''intent'', PStr ''unknown''),
                     (''sentiment'', PStr ''neutral''),
                     (''topics'', PList [PStr ''general'']),
                     (''response_type'', PStr ''engagement'')])"
  by (simp add: parse_analysis_cases analysis_of_text_decode_error decode_or_key_error_def
      fallback_analysis_def)

theorem parse_analysis_fallback_witness:
  "extract_json_text ''Sorry, I cannot help with that.'' = Inr ''Sorry, I cannot help with that.''
   \<and> json_loads (sample_env []) ''Sorry, I cannot help with that.'' = Inl JSONDecodeError
   \<and> fst (parse_analysis (sample_env []) ''Sorry, I cannot help with that.'' world0)
       = Inr (PDict [(''intent'', PStr ''unknown''),
                     (''sentiment'', PStr ''neutral''),
                     (''topics'', PList [PStr ''general'']),
                     (''response_type'', PStr ''engagement'')])"
proof -
  have a: "extract_json_text ''Sorry, I cannot help with that.''
             = Inr ''Sorry, I cannot help with that.''"
    by code_simp
  have "loads_basic ''Sorry, I cannot help with that.'' = Inl JSONDecodeError"
    by code_simp
  then have b: "json_loads (sample_env []) ''Sorry, I cannot help with that.'' = Inl JSONDecodeError"
    by (simp add: sample_env_def)
  from parse_analysis_fallback [OF a b, of world0] a b show ?thesis by simp
qed

text \<open>
  The claim C1 as stated gives \<open>unknown\<close> for sentiment and response type. On a text that
  is not parseable the record has sentiment \<open>neutral\<close> and response type \<open>engagement\<close>.
\<close>

theorem parse_analysis_defaults_counterexample:
  "json_loads (sample_env []) ''Sorry, I cannot help with that.'' = Inl JSONDecodeError
   \<and> item_of (returned (fst (parse_analysis (sample_env [])
                 ''Sorry, I cannot help with that.'' world0))) ''sentiment''
       = Some (PStr ''neutral'')
   \<and> item_of (returned (fst (parse_analysis (sample_env [])
                 ''Sorry, I cannot help with that.'' world0))) ''sentiment''
       \<noteq> Some (PStr ''unknown'')
   \<and> item_of (returned (fst (parse_analysis (sample_env [])
                 ''Sorry, I cannot help with that.'' world0))) ''response_type''
       = Some (PStr ''engagement'')
   \<and> item_of (returned (fst (parse_analysis (sample_env [])
                 ''Sorry, I cannot help with that.'' world0))) ''response_type''
       \<noteq> Some (PStr ''unknown'')"
proof -
  have "loads_basic ''Sorry, I cannot help with that.'' = Inl JSONDecodeError"
    by code_simp
  then have a: "json_loads (sample_env []) ''Sorry, I cannot help with that.''
                  = Inl JSONDecodeError"
    by (simp add: sample_env_def)
  have b: "item_of (returned (fst (parse_analysis (sample_env [])
                 ''Sorry, I cannot help with that.'' world0))) ''sentiment''
           = Some (PStr ''neutral'')"
    by code_simp
  have c: "item_of (returned (fst (parse_analysis (sample_env [])
                 ''Sorry, I cannot help with that.'' world0))) ''response_type''
           = Some (PStr ''engagement'')"
    by code_simp
  show ?thesis unfolding b c using a by simp
qed

text \<open>
  Claim C2, as the code has it. Whenever the Analyze stage returns a record, its topics
  field is a list. With \<open>raw\<close> the text the stage received from the language model in
  this run, the list is empty exactly when the text selected from \<open>raw\<close> is parsed by
  \<open>json.loads\<close> to an object whose \<open>topics\<close> entry is the empty list, and non-empty in
  every other case.
\<close>

theorem analyze_post_topics:
  "fst (analyze_post E platform post_text w) = Inr a \<Longrightarrow>
     \<exists>raw d vs.
        fst (generate_response E (analyzer_prompt E platform post_text)
               (Some ''You are an expert in social media communication analysis.'') w) = Inr raw
      \<and> a = PDict d \<and> map_of d ''topics'' = Some (PList vs)
      \<and> (vs = []) = (\<exists>payload d0. extract_json_text raw = Inr payload
                          \<and> json_loads E payload = Inr (PDict d0)
                          \<and> map_of d0 ''topics'' = Some (PList []))"
proof -
  assume "fst (analyze_post E platform post_text w) = Inr a"
  then have "analyze_post E platform post_text w
               = (Inr a, snd (analyze_post E platform post_text w))"
    by (metis prod.collapse)
  from analyze_post_stages [OF this] obtain raw w1 where
    g: "generate_response E (analyzer_prompt E platform post_text)
          (Some ''You are an expert in social media communication analysis.'') w = (Inr raw, w1)"
    and p: "parse_analysis E raw w1 = (Inr a, snd (analyze_post E platform post_text w))"
    by blast
  from g have "fst (generate_response E (analyzer_prompt E platform post_text)
          (Some ''You are an expert in social media communication analysis.'') w) = Inr raw"
    by simp
  with parse_analysis_shape [OF p] show ?thesis by blast
qed

theorem analyze_post_topics_witness:
  \<open>fst (analyze_post (sample_env [Inr ''{"intent": "statement", "topics": "launch"}''])
          ''twitter'' ''Just shipped a new feature!'' world0)
     = Inr (PDict [(''intent'', PStr ''statement''), (''topics'', PList [PStr ''launch'']),
                   (''sentiment'', PStr ''unknown''), (''response_type'', PStr ''unknown'')])
   \<and> fst (generate_response (sample_env [Inr ''{"intent": "statement", "topics": "launch"}''])
            (analyzer_prompt (sample_env [Inr ''{"intent": "statement", "topics": "launch"}''])
               ''twitter'' ''Just shipped a new feature!'')
            (Some ''You are an expert in social media communication analysis.'') world0)
       = Inr ''{"intent": "statement", "topics": "launch"}''
   \<and> extract_json_text ''{"intent": "statement", "topics": "launch"}''
       = Inr ''{"intent": "statement", "topics": "launch"}''
   \<and> json_loads (sample_env [Inr ''{"intent": "statement", "topics": "launch"}''])
        ''{"intent": "statement", "topics": "launch"}''
       = Inr (PDict [(''intent'', PStr ''statement''), (''topics'', PStr ''launch'')])
   \<and> map_of [(''intent'', PStr ''statement''), (''topics'', PList [PStr ''launch'']),
             (''sentiment'', PStr ''unknown''), (''response_type'', PStr ''unknown'')] ''topics''
       = Some (PList [PStr ''launch''])\<close>
proof -
  define E where \<open>E = sample_env [Inr ''{"intent": "statement", "topics": "launch"}'']\<close>
  define r where "r = [(''intent'', PStr ''statement''), (''topics'', PList [PStr ''launch'']),
                   (''sentiment'', PStr ''unknown''), (''response_type'', PStr ''unknown'')]"
  have run: "fst (analyze_post E ''twitter'' ''Just shipped a new feature!'' world0)
               = Inr (PDict r)"
    unfolding E_def r_def by code_simp
  have gen: \<open>fst (generate_response E (analyzer_prompt E ''twitter'' ''Just shipped a new feature!'')
            (Some ''You are an expert in social media communication analysis.'') world0)
       = Inr ''{"intent": "statement", "topics": "launch"}''\<close>
    unfolding E_def by code_simp
  have ex: \<open>extract_json_text ''{"intent": "statement", "topics": "launch"}''
       = Inr ''{"intent": "statement", "topics": "launch"}''\<close>
    by code_simp
  have \<open>loads_basic ''{"intent": "statement", "topics": "launch"}''
       = Inr (PDict [(''intent'', PStr ''statement''), (''topics'', PStr ''launch'')])\<close>
    by code_simp
  then have ld: \<open>json_loads E ''{"intent": "statement", "topics": "launch"}''
       = Inr (PDict [(''intent'', PStr ''statement''), (''topics'', PStr ''launch'')])\<close>
    unfolding E_def by (simp add: sample_env_def)
  from analyze_post_topics [OF run] obtain raw d vs where
    o: "fst (generate_response E (analyzer_prompt E ''twitter'' ''Just shipped a new feature!'')
             (Some ''You are an expert in social media communication analysis.'') world0) = Inr raw"
       "PDict r = PDict d" "map_of d ''topics'' = Some (PList vs)"
       "(vs = []) = (\<exists>payload d0. extract_json_text raw = Inr payload
                          \<and> json_loads E payload = Inr (PDict d0)
                          \<and> map_of d0 ''topics'' = Some (PList []))"
    by blast
  from o(1) gen have raw: \<open>raw = ''{"intent": "statement", "topics": "launch"}''\<close> by simp
  have "\<not> (\<exists>payload d0. extract_json_text raw = Inr payload
                          \<and> json_loads E payload = Inr (PDict d0)
                          \<and> map_of d0 ''topics'' = Some (PList []))"
    unfolding raw using ex ld by auto
  with o(4) have ne: "vs \<noteq> []" by simp
  from o(2,3) have mv: "map_of r ''topics'' = Some (PList vs)" by simp
  then have "vs = [PStr ''launch'']" unfolding r_def by simp
  with mv ne have m: "map_of r ''topics'' = Some (PList [PStr ''launch''])" by simp
  from run gen ex ld m show ?thesis unfolding E_def r_def by simp
qed

text \<open>
  The claim C2 as stated fails: line 58 only makes sure that topics is a list, so an empty
  list in the model's answer stays empty.
\<close>

theorem analyze_post_empty_topics_counterexample:
  \<open>item_of (returned (fst (analyze_post (sample_env [Inr ''{"topics": []}''])
              ''twitter'' ''Just shipped a new feature!'' world0))) ''topics''
     = Some (PList [])\<close>
  by code_simp

text \<open>
  Claim C5 says that \<open>store_reply\<close> never throws, for every record passed to it. For a
  record without \<open>created_at\<close> and an available database, line 78 raises
  \<open>AttributeError\<close> before the \<open>try\<close> of line 80 is entered. The run below starts
  without a connection; \<open>connect\<close> sets the database handle, and the call raises. (For a
  record that has \<open>created_at\<close>, as every record of the orchestrator has,
  \<open>store_reply_with_timestamp\<close> shows that the call returns.)
\<close>

theorem store_reply_missing_timestamp_raises:
  "fst (store_reply (sample_env []) [(''reply_text'', PStr ''hi'')] world0) = Inl AttributeError"
  by code_simp

section \<open>Claims about the orchestrator\<close>

text \<open>
  Claim C7, as the code has it. Whenever \<open>generate_reply\<close> returns a record: the three
  stages have returned in this run, \<open>reply_text\<close> is the text the Compose stage returned,
  \<open>platform\<close> and \<open>post_text\<close> are the arguments, and \<open>metadata.generation_time\<close> is the
  number of seconds between the first and the second reading of the clock, which is not
  negative when the clock has not gone back between the two readings. The record has an
  \<open>analysis\<close> field exactly when \<open>include_analysis\<close> is true; the field is then the
  record the Analyze stage returned, which has the four required keys and a list under
  \<open>topics\<close>. The \<open>_id\<close> that the database driver may add to the record changes none of
  these fields.
\<close>

theorem generate_reply_record:
  assumes "generate_reply E platform post_text context include_analysis w = (Inr r, w')"
  shows "(\<exists>analysis strategy reply_text wa ws wr.
            analyze_post E platform post_text (w\<lparr>clock_reads := Suc (clock_reads w)\<rparr>)
              = (Inr analysis, wa)
          \<and> determine_strategy E platform post_text analysis
               (wa\<lparr>printed := printed wa
                     @ [PrintedVal ''Post analysis: '' analysis, Printed ''\<newline>'']\<rparr>)
              = (Inr strategy, ws)
          \<and> generate_platform_reply E platform post_text analysis strategy
               (ws\<lparr>printed := printed ws
                     @ [PrintedVal ''Response strategy: '' strategy, Printed ''\<newline>'']\<rparr>)
              = (Inr reply_text, wr)
          \<and> map_of r ''reply_text'' = Some (PStr reply_text)
          \<and> (include_analysis \<longrightarrow> map_of r ''analysis'' = Some analysis))
       \<and> map_of r ''platform'' = Some (PStr platform)
       \<and> map_of r ''post_text'' = Some (PStr post_text)
       \<and> item_of (map_of r ''metadata'') ''generation_time''
           = Some (PFloat (total_seconds (utc_now E (Suc (clock_reads w)))
                            (utc_now E (clock_reads w))))
       \<and> (utc_now E (clock_reads w) \<le> utc_now E (Suc (clock_reads w)) \<longrightarrow>
            0 \<le> total_seconds (utc_now E (Suc (clock_reads w))) (utc_now E (clock_reads w)))
       \<and> (map_of r ''analysis'' \<noteq> None) = include_analysis
       \<and> (include_analysis \<longrightarrow>
            (\<exists>d vs. map_of r ''analysis'' = Some (PDict d)
                  \<and> (\<forall>k\<in>set required_keys. map_of d k \<noteq> None)
                  \<and> map_of d ''topics'' = Some (PList vs)))"
proof -
  from generate_reply_run [OF assms]
  obtain analysis wa strategy ws reply_text wr summary stored_id wd where
    a: "analyze_post E platform post_text (w\<lparr>clock_reads := Suc (clock_reads w)\<rparr>)
          = (Inr analysis, wa)"
    and s: "determine_strategy E platform post_text analysis
              (wa\<lparr>printed := printed wa
                    @ [PrintedVal ''Post analysis: '' analysis, Printed ''\<newline>'']\<rparr>)
            = (Inr strategy, ws)"
    and g: "generate_platform_reply E platform post_text analysis strategy
              (ws\<lparr>printed := printed ws
                    @ [PrintedVal ''Response strategy: '' strategy, Printed ''\<newline>'']\<rparr>)
            = (Inr reply_text, wr)"
    and st: "store_reply E
         ((if include_analysis then AList.update ''analysis'' analysis else id)
            [(''reply_text'', PStr reply_text),
             (''platform'', PStr platform),
             (''post_text'', PStr post_text),
             (''created_at'', PDatetime (utc_now E (Suc (clock_reads wr)))),
             (''metadata'',
                PDict [(''generation_time'',
                          PFloat (total_seconds (utc_now E (clock_reads wr))
                                    (utc_now E (clock_reads w)))),
                       (''strategy'', summary),
                       (''model'', PStr ''Google Gemini'')])]) wd
        = (Inr (stored_id, r), w')"
    by blast
  define built where "built = (if include_analysis then AList.update ''analysis'' analysis else id)
            [(''reply_text'', PStr reply_text),
             (''platform'', PStr platform),
             (''post_text'', PStr post_text),
             (''created_at'', PDatetime (utc_now E (Suc (clock_reads wr)))),
             (''metadata'',
                PDict [(''generation_time'',
                          PFloat (total_seconds (utc_now E (clock_reads wr))
                                    (utc_now E (clock_reads w)))),
                       (''strategy'', summary),
                       (''model'', PStr ''Google Gemini'')])]"
  from st have st': "store_reply E built wd = (Inr (stored_id, r), w')"
    unfolding built_def .
  have keep: "map_of r k = map_of built k" if "k \<noteq> ''_id''" for k
    using store_reply_fields [OF st' that] .
  from analyze_post_clock [OF a] have ca: "clock_reads wa = Suc (clock_reads w)" by simp
  from determine_strategy_clock [OF s] ca have cs: "clock_reads ws = Suc (clock_reads w)"
    by simp
  from generate_platform_reply_clock [OF g] cs have cr: "clock_reads wr = Suc (clock_reads w)"
    by simp
  from analyze_post_shape [OF a] obtain d vs where
    d: "analysis = PDict d" "\<forall>k\<in>set required_keys. map_of d k \<noteq> None"
       "map_of d ''topics'' = Some (PList vs)" by blast
  have b1: "map_of built ''reply_text'' = Some (PStr reply_text)"
    and b2: "map_of built ''platform'' = Some (PStr platform)"
    and b3: "map_of built ''post_text'' = Some (PStr post_text)"
    and b4: "item_of (map_of built ''metadata'') ''generation_time''
           = Some (PFloat (total_seconds (utc_now E (Suc (clock_reads w)))
                            (utc_now E (clock_reads w))))"
    and b5: "(map_of built ''analysis'' \<noteq> None) = include_analysis"
    and b6: "include_analysis \<longrightarrow> map_of built ''analysis'' = Some analysis"
    unfolding built_def cr by (simp_all add: update_conv' item_of_def)
  have f1: "map_of r ''reply_text'' = Some (PStr reply_text)"
    using keep [of "''reply_text''"] b1 by simp
  have f2: "map_of r ''platform'' = Some (PStr platform)"
    using keep [of "''platform''"] b2 by simp
  have f3: "map_of r ''post_text'' = Some (PStr post_text)"
    using keep [of "''post_text''"] b3 by simp
  have f4: "item_of (map_of r ''metadata'') ''generation_time''
           = Some (PFloat (total_seconds (utc_now E (Suc (clock_reads w)))
                            (utc_now E (clock_reads w))))"
    using keep [of "''metadata''"] b4 by simp
  have f5: "(map_of r ''analysis'' \<noteq> None) = include_analysis"
    using keep [of "''analysis''"] b5 by simp
  have f6: "include_analysis \<longrightarrow> map_of r ''analysis'' = Some analysis"
    using keep [of "''analysis''"] b6 by simp
  from f6 d have f7: "include_analysis \<longrightarrow>
            (\<exists>d vs. map_of r ''analysis'' = Some (PDict d)
                  \<and> (\<forall>k\<in>set required_keys. map_of d k \<noteq> None)
                  \<and> map_of d ''topics'' = Some (PList vs))" by blast
  have f8: "utc_now E (clock_reads w) \<le> utc_now E (Suc (clock_reads w)) \<longrightarrow>
            0 \<le> total_seconds (utc_now E (Suc (clock_reads w))) (utc_now E (clock_reads w))"
    by (simp add: total_seconds_nonneg)
  from a s g f1 f6 have f0: "\<exists>analysis strategy reply_text wa ws wr.
            analyze_post E platform post_text (w\<lparr>clock_reads := Suc (clock_reads w)\<rparr>)
              = (Inr analysis, wa)
          \<and> determine_strategy E platform post_text analysis
               (wa\<lparr>printed := printed wa
                     @ [PrintedVal ''Post analysis: '' analysis, Printed ''\<newline>'']\<rparr>)
              = (Inr strategy, ws)
          \<and> generate_platform_reply E platform post_text analysis strategy
               (ws\<lparr>printed := printed ws
                     @ [PrintedVal ''Response strategy: '' strategy, Printed ''\<newline>'']\<rparr>)
              = (Inr reply_text, wr)
          \<and> map_of r ''reply_text'' = Some (PStr reply_text)
          \<and> (include_analysis \<longrightarrow> map_of r ''analysis'' = Some analysis)" by blast
  from f0 f2 f3 f4 f8 f5 f7 show ?thesis by blast
qed

theorem generate_reply_record_witness:
  \<open>fst (generate_reply
          (sample_env
            [Inr ''{"intent": "statement", "sentiment": "excited", "topics": ["launch"], "response_type": "engagement"}'',
             Inr ''{"strategy_summary": "Congratulate them.", "considerations": ["Be brief"]}'',
             Inr ''Reply: Congrats on shipping!''])
          ''twitter'' ''Just shipped a new feature!'' None True world0)
     = Inr [(''reply_text'', PStr ''Congrats on shipping!''),
            (''platform'', PStr ''twitter''),
            (''post_text'', PStr ''Just shipped a new feature!''),
            (''created_at'', PDatetime 2000000),
            (''metadata'',
               PDict [(''generation_time'', PFloat 1),
                      (''strategy'', PStr ''Congratulate them.''),
                      (''model'', PStr ''Google Gemini'')]),
            (''analysis'',
               PDict [(''intent'', PStr ''statement''),
                      (''sentiment'', PStr ''excited''),
                      (''topics'', PList [PStr ''launch'']),
                      (''response_type'', PStr ''engagement'')]),
            (''_id'', PObjectId ''65f0c0ffee0123456789abcd'')]
   \<and> utc_now (sample_env
            [Inr ''{"intent": "statement", "sentiment": "excited", "topics": ["launch"], "response_type": "engagement"}'',
             Inr ''{"strategy_summary": "Congratulate them.", "considerations": ["Be brief"]}'',
             Inr ''Reply: Congrats on shipping!'']) (clock_reads world0)
       \<le> utc_now (sample_env
            [Inr ''{"intent": "statement", "sentiment": "excited", "topics": ["launch"], "response_type": "engagement"}'',
             Inr ''{"strategy_summary": "Congratulate them.", "considerations": ["Be brief"]}'',
             Inr ''Reply: Congrats on shipping!'']) (Suc (clock_reads world0))
   \<and> (0::rat) \<le> total_seconds 1000000 0\<close>
proof -
  define E where \<open>E = sample_env
            [Inr ''{"intent": "statement", "sentiment": "excited", "topics": ["launch"], "response_type": "engagement"}'',
             Inr ''{"strategy_summary": "Congratulate them.", "considerations": ["Be brief"]}'',
             Inr ''Reply: Congrats on shipping!'']\<close>
  define r where "r = [(''reply_text'', PStr ''Congrats on shipping!''),
            (''platform'', PStr ''twitter''),
            (''post_text'', PStr ''Just shipped a new feature!''),
            (''created_at'', PDatetime 2000000),
            (''metadata'',
               PDict [(''generation_time'', PFloat 1),
                      (''strategy'', PStr ''Congratulate them.''),
                      (''model'', PStr ''Google Gemini'')]),
            (''analysis'',
               PDict [(''intent'', PStr ''statement''),
                      (''sentiment'', PStr ''excited''),
                      (''topics'', PList [PStr ''launch'']),
                      (''response_type'', PStr ''engagement'')]),
            (''_id'', PObjectId ''65f0c0ffee0123456789abcd'')]"
  have ev: "fst (generate_reply E ''twitter'' ''Just shipped a new feature!'' None True world0)
              = Inr r"
    unfolding E_def r_def by code_simp
  then have run: "generate_reply E ''twitter'' ''Just shipped a new feature!'' None True world0
      = (Inr r, snd (generate_reply E ''twitter'' ''Just shipped a new feature!'' None True world0))"
    by (metis prod.collapse)
  have clock: "utc_now E (clock_reads world0) \<le> utc_now E (Suc (clock_reads world0))"
    unfolding E_def by (simp add: sample_env_def world0_def)
  have times: "utc_now E (clock_reads world0) = 0" "utc_now E (Suc (clock_reads world0)) = 1000000"
    unfolding E_def by (simp_all add: sample_env_def world0_def)
  from generate_reply_record [OF run] clock
  have "0 \<le> total_seconds (utc_now E (Suc (clock_reads world0))) (utc_now E (clock_reads world0))"
    by blast
  then have "(0::rat) \<le> total_seconds 1000000 0" unfolding times .
  with ev clock show ?thesis unfolding E_def r_def by simp
qed

text \<open>
  The claim C7 as stated asks for a non-empty topics list. With an analysis whose topics
  entry is the empty list the run returns a record whose analysis has no topic. A run
  need not return a record at all: when the language model answers with a JSON array,
  line 54 raises \<open>TypeError\<close>, which the \<open>except\<close> of line 62 does not catch.
\<close>

theorem generate_reply_empty_topics_counterexample:
  \<open>item_of (field_of (fst (generate_reply
      (sample_env [Inr ''{"topics": []}'', Inr ''{}'', Inr ''Nice!''])
      ''twitter'' ''Just shipped a new feature!'' None True world0)) ''analysis'') ''topics''
     = Some (PList [])
   \<and> fst (generate_reply (sample_env [Inr ''[]''])
          ''twitter'' ''Just shipped a new feature!'' None True world0) = Inl TypeError\<close>
proof -
  have a: \<open>item_of (field_of (fst (generate_reply
      (sample_env [Inr ''{"topics": []}'', Inr ''{}'', Inr ''Nice!''])
      ''twitter'' ''Just shipped a new feature!'' None True world0)) ''analysis'') ''topics''
     = Some (PList [])\<close>
    by code_simp
  have b: \<open>fst (generate_reply (sample_env [Inr ''[]''])
          ''twitter'' ''Just shipped a new feature!'' None True world0) = Inl TypeError\<close>
    by code_simp
  from a b show ?thesis by simp
qed

end
